theory Spec2Isabelle
  imports Complex_Main
begin

section \<open>Data model of the image studio\<close>

text \<open>
  The canvas editor is the React component \<open>ImageStudio\<close>. Its hooks (\<open>useState\<close>,
  \<open>useRef\<close>) and the \<open>activeTool\<close> prop are the fields of one record, every handler is
  a function from that record to the updated one, and the two effects (history restore,
  render) are functions of the record as well.

  A JavaScript number is modelled by the real it denotes. Every arithmetic operator of
  the source rounds its exact result to the nearest double, which is \<open>fl\<close> below; NaN,
  the infinities and the sign of zero are outside the model. The functions of \<open>Math\<close>
  that ECMAScript leaves to the implementation are the field \<open>platform\<close> of the record.
  A string is the list of its code units.
\<close>

section \<open>Numbers\<close>

text \<open>Rounding of a real to an integer, halves to the even neighbour.\<close>

definition rne :: "real \<Rightarrow> int" where
  "rne y = (let f = \<lfloor>y\<rfloor>; r = y - of_int f
            in if r < 1 / 2 then f else if 1 / 2 < r then f + 1
               else if even f then f else f + 1)"

text \<open>
  The binary exponent of a double near \<open>x\<close>; below \<open>2 powi - 1022\<close> the doubles are
  equally spaced.
\<close>

definition expo :: "real \<Rightarrow> int" where
  "expo x = max \<lfloor>log 2 \<bar>x\<bar>\<rfloor> (- 1022)"

text \<open>
  The double nearest to \<open>x\<close>, ties to the even significand of 53 bits (the rounding of
  IEEE 754 binary64); overflow is not modelled.
\<close>

definition fl :: "real \<Rightarrow> real" where
  "fl x = (if x = 0 then 0
           else 2 powi (expo x - 52) * of_int (rne (x / 2 powi (expo x - 52))))"

text \<open>The doubles that \<open>Math.PI\<close> and the literal \<open>0.6\<close> denote.\<close>

definition Math_PI :: real where
  "Math_PI = 884279719003555 / 281474976710656"

definition literal_0_6 :: real where
  "literal_0_6 = 5404319552844595 / 9007199254740992"

text \<open>
  \<open>x % y\<close> for doubles is exact: \<open>x\<close> minus \<open>y\<close> times the quotient truncated towards
  zero.
\<close>

definition remainder :: "real \<Rightarrow> real \<Rightarrow> real" where
  "remainder x y =
     x - y * of_int (if x / y < 0 then - \<lfloor>- (x / y)\<rfloor> else \<lfloor>x / y\<rfloor>)"

text \<open>
  The conversion of a number to the IDL type \<open>unsigned long\<close>: truncation towards zero,
  modulo \<open>2 ^ 32\<close>. The \<open>width\<close> and \<open>height\<close> of a canvas element reflect content
  attributes limited to non-negative numbers: a value above \<open>2147483647\<close> gives the
  default, 300 for the width and 150 for the height.
\<close>

definition unsignedLong :: "real \<Rightarrow> int" where
  "unsignedLong x = (if x < 0 then - \<lfloor>- x\<rfloor> else \<lfloor>x\<rfloor>) mod 2 ^ 32"

definition canvasWidth :: "real \<Rightarrow> int" where
  "canvasWidth x = (if unsignedLong x \<le> 2147483647 then unsignedLong x else 300)"

definition canvasHeight :: "real \<Rightarrow> int" where
  "canvasHeight x = (if unsignedLong x \<le> 2147483647 then unsignedLong x else 150)"

text \<open>
  \<open>Math.cos\<close>, \<open>Math.sin\<close>, \<open>Math.sqrt\<close> and \<open>Math.pow\<close> as the browser implements
  them.
\<close>

record Platform =
  math_cos :: "real \<Rightarrow> real"
  math_sin :: "real \<Rightarrow> real"
  math_sqrt :: "real \<Rightarrow> real"
  math_pow :: "real \<Rightarrow> real \<Rightarrow> real"

section \<open>Edit state and component state\<close>

record Adjustments =
  brightness :: real
  contrast :: real
  saturate :: real
  grayscale :: real
  sepia :: real
  invert :: real
  blur :: real
  hueRotate :: real

record Flip =
  horizontal :: bool
  vertical :: bool

record Transforms =
  t_rotate :: real
  t_flip :: Flip

datatype ActiveTool = Adjust | Transform | Crop | Draw | Text | Shape | Select | Harmonize | Remove

record Point =
  pt_x :: real
  pt_y :: real

record Path =
  path_points :: "Point list"
  path_color :: string
  path_size :: real
  path_id :: string

record TextElement =
  text_text :: string
  text_x :: real
  text_y :: real
  text_color :: string
  text_size :: real
  text_id :: string
  text_hasOutline :: bool
  text_outlineColor :: string
  text_outlineWidth :: real

datatype ShapeType = Rectangle | Circle | Line

record ShapeElement =
  shape_type :: ShapeType
  shape_x1 :: real
  shape_y1 :: real
  shape_x2 :: real
  shape_y2 :: real
  shape_color :: string
  shape_strokeWidth :: real
  shape_id :: string

record EditState =
  e_adjustments :: Adjustments
  e_transforms :: Transforms
  e_paths :: "Path list"
  e_texts :: "TextElement list"
  e_shapes :: "ShapeElement list"

text \<open>\<open>Partial<EditState>\<close>: a key that is present is \<open>Some\<close>.\<close>

record PartialEditState =
  p_adjustments :: "Adjustments option"
  p_transforms :: "Transforms option"
  p_paths :: "Path list option"
  p_texts :: "TextElement list option"
  p_shapes :: "ShapeElement list option"

record Rect =
  rect_x :: real
  rect_y :: real
  rect_width :: real
  rect_height :: real

datatype ElementType = text_element | shape_element

record Selected =
  sel_type :: ElementType
  sel_id :: string

text \<open>
  The source image is a data URL; the \<open>Image\<close> element decoded from it supplies
  \<open>naturalWidth\<close> and \<open>naturalHeight\<close>, which are integers.
\<close>

record SourceImage =
  naturalWidth :: int
  naturalHeight :: int
  dataUrl :: string

text \<open>
  What the closure \<open>recordHistory\<close> has captured: the dependencies of its
  \<open>useCallback\<close>.
\<close>

record Closure =
  c_adjustments :: Adjustments
  c_transforms :: Transforms
  c_paths :: "Path list"
  c_texts :: "TextElement list"
  c_shapes :: "ShapeElement list"
  c_history :: "EditState list"
  c_historyIndex :: int

text \<open>
  A timer scheduled by \<open>window.setTimeout\<close>: its id, the time in milliseconds at which
  it fires, and its callback \<open>() => recordHistory(newStates)\<close> as the captured closure
  and the argument.
\<close>

record Timer =
  timer_id :: nat
  due :: nat
  timer_env :: Closure
  timer_arg :: PartialEditState

record Studio =
  originalImage :: "SourceImage option"
  fileName :: string
  exportFileName :: string
  adjustments :: Adjustments
  transforms :: Transforms
  paths :: "Path list"
  texts :: "TextElement list"
  shapes :: "ShapeElement list"
  cropRect :: "Rect option"
  isDrawing :: bool
  brushColor :: string
  brushSize :: real
  currentText :: string
  textPosition :: "Point option"
  shapeType :: ShapeType
  shapeColor :: string
  shapeStrokeWidth :: real
  selectedElement :: "Selected option"
  isDragging :: bool
  dragStartPoint :: Point
  foregroundImage :: "string option"
  removeMask :: "Path list"
  removeBrushSize :: real
  subjectMask :: "string option"
  history :: "EditState list"
  historyIndex :: int
  startPoint :: "Point option"
  historyTimeoutRef :: "nat option"
  timers :: "Timer list"
  lastTimerId :: nat
  clock :: nat
  activeTool :: "ActiveTool option"
  platform :: Platform

definition INITIAL_ADJUSTMENTS :: Adjustments where
  "INITIAL_ADJUSTMENTS =
     \<lparr>brightness = 100, contrast = 100, saturate = 100, grayscale = 0,
      sepia = 0, invert = 0, blur = 0, hueRotate = 0\<rparr>"

definition INITIAL_TRANSFORMS :: Transforms where
  "INITIAL_TRANSFORMS = \<lparr>t_rotate = 0, t_flip = \<lparr>horizontal = False, vertical = False\<rparr>\<rparr>"

definition INITIAL_EDIT_STATE :: EditState where
  "INITIAL_EDIT_STATE =
     \<lparr>e_adjustments = INITIAL_ADJUSTMENTS, e_transforms = INITIAL_TRANSFORMS,
      e_paths = [], e_texts = [], e_shapes = []\<rparr>"

section \<open>History management\<close>

text \<open>
  \<open>xs.slice(0, e)\<close> of JavaScript: a negative end counts from the end of the array,
  and the end is clamped to the length.
\<close>

definition slice0 :: "'a list \<Rightarrow> int \<Rightarrow> 'a list" where
  "slice0 xs e =
     (let n = int (length xs);
          k = (if e < 0 then max (n + e) 0 else min e n)
      in take (nat k) xs)"

text \<open>The object spread \<open>{adjustments, transforms, paths, texts, shapes, ...newStates}\<close>.\<close>

definition spread :: "Closure \<Rightarrow> PartialEditState \<Rightarrow> EditState" where
  "spread c newStates =
     \<lparr>e_adjustments = (case p_adjustments newStates of Some a \<Rightarrow> a | None \<Rightarrow> c_adjustments c),
      e_transforms = (case p_transforms newStates of Some t \<Rightarrow> t | None \<Rightarrow> c_transforms c),
      e_paths = (case p_paths newStates of Some ps \<Rightarrow> ps | None \<Rightarrow> c_paths c),
      e_texts = (case p_texts newStates of Some ts \<Rightarrow> ts | None \<Rightarrow> c_texts c),
      e_shapes = (case p_shapes newStates of Some ss \<Rightarrow> ss | None \<Rightarrow> c_shapes c)\<rparr>"

text \<open>The values a closure created in the current render sees.\<close>

definition closure :: "Studio \<Rightarrow> Closure" where
  "closure s =
     \<lparr>c_adjustments = adjustments s, c_transforms = transforms s, c_paths = paths s,
      c_texts = texts s, c_shapes = shapes s,
      c_history = history s, c_historyIndex = historyIndex s\<rparr>"

text \<open>
  The body of \<open>recordHistory\<close>, run with the captured values \<open>c\<close>: it pushes the next
  state on the truncated copy of the captured history and sets both hooks.
\<close>

definition recordHistoryIn :: "Closure \<Rightarrow> PartialEditState \<Rightarrow> Studio \<Rightarrow> Studio" where
  "recordHistoryIn c newStates s =
     (let nextState = spread c newStates;
          newHistory = slice0 (c_history c) (c_historyIndex c + 1) @ [nextState]
      in s\<lparr>history := newHistory, historyIndex := int (length newHistory) - 1\<rparr>)"

text \<open>A handler of the current render calls the closure of the current render.\<close>

definition recordHistory :: "PartialEditState \<Rightarrow> Studio \<Rightarrow> Studio" where
  "recordHistory newStates s = recordHistoryIn (closure s) newStates s"

definition handleUndo :: "Studio \<Rightarrow> Studio" where
  "handleUndo s =
     (if historyIndex s > 0 then s\<lparr>historyIndex := historyIndex s - 1\<rparr> else s)"

definition handleRedo :: "Studio \<Rightarrow> Studio" where
  "handleRedo s =
     (if historyIndex s < int (length (history s)) - 1
      then s\<lparr>historyIndex := historyIndex s - 1\<rparr> else s)"

text \<open>
  The effect with dependencies \<open>[history, historyIndex]\<close>: it copies the snapshot at the
  current index into the five edit hooks.
\<close>

definition restoreHistory :: "Studio \<Rightarrow> Studio" where
  "restoreHistory s =
     (if historyIndex s < 0 \<or> historyIndex s \<ge> int (length (history s)) then s
      else (let stateToRestore = history s ! nat (historyIndex s)
            in s\<lparr>adjustments := e_adjustments stateToRestore,
                 transforms := e_transforms stateToRestore,
                 paths := e_paths stateToRestore,
                 texts := e_texts stateToRestore,
                 shapes := e_shapes stateToRestore\<rparr>))"

text \<open>
  React runs the effect after a handler when one of its dependencies has changed.
  \<open>old\<close> is the state before the handler and \<open>new\<close> the state it left. React compares
  the array by identity and the model by value: \<open>recordHistory\<close> always changes the
  history or the index in value as well, and after \<open>resetEdits\<close> the effect writes the
  values the hooks already hold.
\<close>

definition afterRender :: "Studio \<Rightarrow> Studio \<Rightarrow> Studio" where
  "afterRender old new =
     (if history new = history old \<and> historyIndex new = historyIndex old then new
      else restoreHistory new)"

definition resetEdits :: "EditState \<Rightarrow> Studio \<Rightarrow> Studio" where
  "resetEdits initialState s =
     s\<lparr>adjustments := e_adjustments initialState,
       transforms := e_transforms initialState,
       paths := e_paths initialState,
       texts := e_texts initialState,
       shapes := e_shapes initialState,
       activeTool := None,
       cropRect := None,
       textPosition := None,
       currentText := [],
       selectedElement := None,
       foregroundImage := None,
       removeMask := [],
       subjectMask := None,
       history := [initialState],
       historyIndex := 0\<rparr>"

text \<open>The edit state on display: the five edit hooks, which the renderer reads.\<close>

definition displayed :: "Studio \<Rightarrow> EditState" where
  "displayed s =
     \<lparr>e_adjustments = adjustments s, e_transforms = transforms s, e_paths = paths s,
      e_texts = texts s, e_shapes = shapes s\<rparr>"

text \<open>
  A platform to evaluate on: \<open>Math.cos\<close> and \<open>Math.sin\<close> with the values V8 returns
  at 0 and at \<open>Math.PI / 2\<close>, and correctly rounded results everywhere else.
\<close>

definition browserMath :: Platform where
  "browserMath =
     \<lparr>math_cos = (\<lambda>x. if x = 0 then 1
                     else if x = Math_PI / 2
                       then 4967757600021511 / 81129638414606681695789005144064
                     else fl (cos x)),
      math_sin = (\<lambda>x. if x = 0 then 0 else if x = Math_PI / 2 then 1 else fl (sin x)),
      math_sqrt = (\<lambda>x. fl (sqrt x)),
      math_pow = (\<lambda>x y. if y = 2 then fl (x * x) else fl (x powr y))\<rparr>"

text \<open>A state to evaluate the handlers on: the hooks' initial values.\<close>

definition initialStudio :: Studio where
  "initialStudio =
     \<lparr>originalImage = None, fileName = [], exportFileName = ''hiskon-photoshop-export'',
      adjustments = INITIAL_ADJUSTMENTS, transforms = INITIAL_TRANSFORMS,
      paths = [], texts = [], shapes = [], cropRect = None, isDrawing = False,
      brushColor = ''#ffffff'', brushSize = 5, currentText = [], textPosition = None,
      shapeType = Rectangle, shapeColor = ''#4285F4'', shapeStrokeWidth = 4,
      selectedElement = None, isDragging = False,
      dragStartPoint = \<lparr>pt_x = 0, pt_y = 0\<rparr>,
      foregroundImage = None, removeMask = [], removeBrushSize = 20, subjectMask = None,
      history = [], historyIndex = - 1, startPoint = None, historyTimeoutRef = None,
      timers = [], lastTimerId = 0, clock = 0, activeTool = None,
      platform = browserMath\<rparr>"

section \<open>The debounce timer\<close>

text \<open>
  The browser's timer table is the list \<open>timers\<close>, in the order of scheduling, and
  \<open>clock\<close> is the time in milliseconds. \<open>window.setTimeout\<close> returns a fresh id, which
  is positive, and \<open>clearTimeout\<close> removes the timer with the given id if it is still
  in the table.
\<close>

definition clearTimeout :: "nat \<Rightarrow> Studio \<Rightarrow> Studio" where
  "clearTimeout i s = s\<lparr>timers := filter (\<lambda>t. timer_id t \<noteq> i) (timers s)\<rparr>"

definition recordHistoryWithDebounce :: "PartialEditState \<Rightarrow> Studio \<Rightarrow> Studio" where
  "recordHistoryWithDebounce newStates s =
     (let s1 = (case historyTimeoutRef s of
                  Some i \<Rightarrow> if i \<noteq> 0 then clearTimeout i s else s
                | None \<Rightarrow> s);
          i = Suc (lastTimerId s1)
      in s1\<lparr>timers := timers s1 @
                [\<lparr>timer_id = i, due = clock s1 + 400, timer_env = closure s1,
                  timer_arg = newStates\<rparr>],
            lastTimerId := i,
            historyTimeoutRef := Some i\<rparr>)"

text \<open>
  A timer that fires runs the \<open>recordHistory\<close> it captured; the restore effect follows
  as after any handler.
\<close>

definition fireTimer :: "Timer \<Rightarrow> Studio \<Rightarrow> Studio" where
  "fireTimer t s = afterRender s (recordHistoryIn (timer_env t) (timer_arg t) s)"

text \<open>
  \<open>dt\<close> milliseconds pass with no other event: the timers that are due leave the table
  and fire in the order in which they were scheduled (all have the same delay).
\<close>

definition advance :: "nat \<Rightarrow> Studio \<Rightarrow> Studio" where
  "advance dt s =
     (let now = clock s + dt;
          ready = filter (\<lambda>t. due t \<le> now) (timers s);
          s1 = s\<lparr>clock := now, timers := filter (\<lambda>t. \<not> due t \<le> now) (timers s)\<rparr>
      in fold fireTimer ready s1)"

text \<open>
  Between two commits the handlers change the five edit hooks through their setters;
  \<open>setEdits e\<close> is the net effect of those calls.
\<close>

definition setEdits :: "EditState \<Rightarrow> Studio \<Rightarrow> Studio" where
  "setEdits e s =
     s\<lparr>adjustments := e_adjustments e, transforms := e_transforms e, paths := e_paths e,
       texts := e_texts e, shapes := e_shapes e\<rparr>"

text \<open>
  A burst of calls of the debounced commit. Each element of the list is one handler
  run, \<open>d\<close> milliseconds after the one before it: the handler calls
  \<open>recordHistoryWithDebounce newStates\<close> of its render and leaves the edit hooks at \<open>e\<close>
  (the slider handler sets the adjustments it passes).
\<close>

fun debounceBurst :: "(nat \<times> EditState \<times> PartialEditState) list \<Rightarrow> Studio \<Rightarrow> Studio" where
  "debounceBurst [] s = s"
| "debounceBurst ((d, e, newStates) # calls) s =
     debounceBurst calls (setEdits e (recordHistoryWithDebounce newStates (advance d s)))"

text \<open>
  The edit hooks as the closure of the last call of a burst sees them: those left by the
  call before it, or those of the start when there is none.
\<close>

definition hooksAtLastCall :: "EditState \<Rightarrow> (nat \<times> EditState \<times> PartialEditState) list \<Rightarrow> EditState" where
  "hooksAtLastCall start calls = last (start # map (\<lambda>c. fst (snd c)) (butlast calls))"

section \<open>Events: a handler and the effects that follow it\<close>

definition commitEvent :: "PartialEditState \<Rightarrow> Studio \<Rightarrow> Studio" where
  "commitEvent newStates s = afterRender s (recordHistory newStates s)"

definition undoEvent :: "Studio \<Rightarrow> Studio" where
  "undoEvent s = afterRender s (handleUndo s)"

definition redoEvent :: "Studio \<Rightarrow> Studio" where
  "redoEvent s = afterRender s (handleRedo s)"

definition resetEvent :: "Studio \<Rightarrow> Studio" where
  "resetEvent s = afterRender s (resetEdits INITIAL_EDIT_STATE s)"

text \<open>
  A sequence of commits: before each one the hooks are brought to some edit state, then
  \<open>recordHistory\<close> is called with some argument.
\<close>

fun commits :: "(EditState \<times> PartialEditState) list \<Rightarrow> Studio \<Rightarrow> Studio" where
  "commits [] s = s"
| "commits ((e, newStates) # cs) s = commits cs (commitEvent newStates (setEdits e s))"

text \<open>
  The state right after a commit: the index is the last position and the hooks show the
  last snapshot.
\<close>

definition atTail :: "Studio \<Rightarrow> bool" where
  "atTail s = (history s \<noteq> [] \<and> historyIndex s = int (length (history s)) - 1
     \<and> displayed s = last (history s))"

text \<open>Values to evaluate the handlers on.\<close>

definition brighter :: Adjustments where
  "brighter = INITIAL_ADJUSTMENTS\<lparr>brightness := 150\<rparr>"

definition onlyAdjustments :: "Adjustments \<Rightarrow> PartialEditState" where
  "onlyAdjustments a =
     \<lparr>p_adjustments = Some a, p_transforms = None, p_paths = None, p_texts = None,
      p_shapes = None\<rparr>"

definition quarterTurn :: Transforms where
  "quarterTurn = INITIAL_TRANSFORMS\<lparr>t_rotate := 90\<rparr>"

definition onlyTransforms :: "Transforms \<Rightarrow> PartialEditState" where
  "onlyTransforms t =
     \<lparr>p_adjustments = None, p_transforms = Some t, p_paths = None, p_texts = None,
      p_shapes = None\<rparr>"

section \<open>Handlers of the tool panels\<close>

text \<open>
  The \<open>onChange\<close> handler of an adjustment slider: \<open>key\<close> is the slider's name and \<open>v\<close>
  the number \<open>+e.target.value\<close>. It sets the adjustments and calls the debounced commit
  of its render with them.
\<close>

datatype Adjustment =
  Brightness | Contrast | Saturate | Grayscale | Sepia | Invert | Blur | HueRotate

definition withAdjustment :: "Adjustment \<Rightarrow> real \<Rightarrow> Adjustments \<Rightarrow> Adjustments" where
  "withAdjustment key v a =
     (case key of
        Brightness \<Rightarrow> a\<lparr>brightness := v\<rparr>
      | Contrast \<Rightarrow> a\<lparr>contrast := v\<rparr>
      | Saturate \<Rightarrow> a\<lparr>saturate := v\<rparr>
      | Grayscale \<Rightarrow> a\<lparr>grayscale := v\<rparr>
      | Sepia \<Rightarrow> a\<lparr>sepia := v\<rparr>
      | Invert \<Rightarrow> a\<lparr>invert := v\<rparr>
      | Blur \<Rightarrow> a\<lparr>blur := v\<rparr>
      | HueRotate \<Rightarrow> a\<lparr>hueRotate := v\<rparr>)"

definition adjustmentInput :: "Adjustment \<Rightarrow> real \<Rightarrow> Studio \<Rightarrow> Studio" where
  "adjustmentInput key v s =
     (let newAdjustments = withAdjustment key v (adjustments s)
      in (recordHistoryWithDebounce (onlyAdjustments newAdjustments) s)
           \<lparr>adjustments := newAdjustments\<rparr>)"

text \<open>
  The \<open>onClick\<close> handler of the rotate-right button: it sets the transforms and commits
  them with the \<open>recordHistory\<close> of its render.
\<close>

definition rotateRightClick :: "Studio \<Rightarrow> Studio" where
  "rotateRightClick s =
     (let t = (transforms s)\<lparr>t_rotate := remainder (fl (t_rotate (transforms s) + 90)) 360\<rparr>
      in (recordHistory (onlyTransforms t) s)\<lparr>transforms := t\<rparr>)"

text \<open>The toolbar sets the active tool, which is a prop of the component.\<close>

definition setActiveTool :: "ActiveTool option \<Rightarrow> Studio \<Rightarrow> Studio" where
  "setActiveTool tool s = s\<lparr>activeTool := tool\<rparr>"

definition adjustmentEvent :: "Adjustment \<Rightarrow> real \<Rightarrow> Studio \<Rightarrow> Studio" where
  "adjustmentEvent key v s = afterRender s (adjustmentInput key v s)"

definition rotateRightEvent :: "Studio \<Rightarrow> Studio" where
  "rotateRightEvent s = afterRender s (rotateRightClick s)"

text \<open>Values to evaluate the history on.\<close>

definition twoCommits :: "(EditState \<times> PartialEditState) list" where
  "twoCommits =
     [(INITIAL_EDIT_STATE\<lparr>e_adjustments := brighter\<rparr>, onlyAdjustments brighter),
      (INITIAL_EDIT_STATE\<lparr>e_adjustments := brighter\<rparr>, onlyTransforms quarterTurn)]"

text \<open>
  The state reached by a reset, one commit, one undo and two clicks on redo.
\<close>

definition belowStart :: Studio where
  "belowStart =
     redoEvent (redoEvent (undoEvent
       (commitEvent (onlyAdjustments brighter) (resetEvent initialStudio))))"

text \<open>The closure of a render whose edit hooks are \<open>e\<close>.\<close>

definition closureOf :: "EditState \<Rightarrow> EditState list \<Rightarrow> int \<Rightarrow> Closure" where
  "closureOf e h i =
     \<lparr>c_adjustments = e_adjustments e, c_transforms = e_transforms e, c_paths = e_paths e,
      c_texts = e_texts e, c_shapes = e_shapes e, c_history = h, c_historyIndex = i\<rparr>"

text \<open>
  Exactly one timer is in the table, it is the one the ref holds, it was scheduled at the
  current time with the closure \<open>c\<close> and the argument \<open>newStates\<close>, and the history and
  the index are still the ones the closure captured.
\<close>

definition pendingOnly :: "Closure \<Rightarrow> PartialEditState \<Rightarrow> Studio \<Rightarrow> bool" where
  "pendingOnly c newStates s =
     (case timers s of
        [t] \<Rightarrow> timer_id t \<noteq> 0 \<and> historyTimeoutRef s = Some (timer_id t)
               \<and> due t = clock s + 400 \<and> timer_env t = c \<and> timer_arg t = newStates
               \<and> c_history c = history s \<and> c_historyIndex c = historyIndex s
      | _ \<Rightarrow> False)"

text \<open>No timer is in the table except, possibly, the one the ref holds.\<close>

definition onlyRefTimer :: "Studio \<Rightarrow> bool" where
  "onlyRefTimer s =
     list_all (\<lambda>t. timer_id t \<noteq> 0 \<and> historyTimeoutRef s = Some (timer_id t)) (timers s)"

text \<open>
  A drag of the brightness slider: after the first input two more follow, 100 ms and
  399 ms after the one before, with the values 120 and 150.
\<close>

definition sliderBurst :: "(nat \<times> EditState \<times> PartialEditState) list" where
  "sliderBurst =
     [(100, INITIAL_EDIT_STATE\<lparr>e_adjustments := INITIAL_ADJUSTMENTS\<lparr>brightness := 120\<rparr>\<rparr>,
          onlyAdjustments (INITIAL_ADJUSTMENTS\<lparr>brightness := 120\<rparr>)),
      (399, INITIAL_EDIT_STATE\<lparr>e_adjustments := brighter\<rparr>, onlyAdjustments brighter)]"

section \<open>The renderer\<close>

text \<open>
  The render effect writes the canvas size and then issues drawing calls on the 2D
  context; the pixel output is determined by that sequence, so the renderer is modelled
  as the list of calls it makes. \<open>SetCanvasSize\<close> carries the width and height the
  canvas has after the two assignments, which are integers. \<open>DrawMaskOnLoad\<close> is the
  mask overlay, which the source draws from the mask image's \<open>onload\<close>;
  \<open>StrokeMeasuredTextBox t x y h\<close> is
  \<open>strokeRect(x, y, measureText(t).width + 4, h)\<close>.
\<close>

datatype CanvasOp =
    SetCanvasSize int int
  | Save
  | Restore
  | Translate real real
  | Rotate real
  | Scale real real
  | SetFilter Adjustments
  | DrawImage real real real real
  | BeginPath
  | StrokeStyle string
  | FillStyle string
  | LineWidth real
  | LineCapRound
  | LineJoinRound
  | MoveTo real real
  | LineTo real real
  | Stroke
  | RectPath real real real real
  | Arc real real real real real
  | Font real
  | TextAlignLeft
  | TextBaselineTop
  | StrokeText string real real
  | FillText string real real
  | DrawMaskOnLoad string
  | FillRect real real real real
  | ClearRect real real real real
  | StrokeRect real real real real
  | SetLineDash "real list"
  | StrokeMeasuredTextBox string real real real

text \<open>The angle in radians, \<open>rotate * Math.PI / 180\<close>.\<close>

definition radians :: "Transforms \<Rightarrow> real" where
  "radians tr = fl (fl (t_rotate tr * Math_PI) / 180)"

text \<open>
  The numbers that \<open>render\<close> assigns to \<open>canvas.width\<close> and \<open>canvas.height\<close>, and the
  extent the canvas has afterwards.
\<close>

definition assignedSize :: "Platform \<Rightarrow> SourceImage \<Rightarrow> Transforms \<Rightarrow> real \<times> real" where
  "assignedSize m img tr =
     (let rad = radians tr;
          w = real_of_int (naturalWidth img); h = real_of_int (naturalHeight img);
          absCos = \<bar>math_cos m rad\<bar>; absSin = \<bar>math_sin m rad\<bar>
      in (fl (fl (w * absCos) + fl (h * absSin)), fl (fl (h * absCos) + fl (w * absSin))))"

definition canvasSize :: "Platform \<Rightarrow> SourceImage \<Rightarrow> Transforms \<Rightarrow> int \<times> int" where
  "canvasSize m img tr =
     (canvasWidth (fst (assignedSize m img tr)), canvasHeight (snd (assignedSize m img tr)))"

definition drawPath :: "Path \<Rightarrow> CanvasOp list" where
  "drawPath path =
     (if length (path_points path) < 2 then []
      else [BeginPath, StrokeStyle (path_color path), LineWidth (path_size path),
            LineCapRound, LineJoinRound,
            MoveTo (pt_x (path_points path ! 0)) (pt_y (path_points path ! 0))]
           @ map (\<lambda>p. LineTo (pt_x p) (pt_y p)) (drop 1 (path_points path))
           @ [Stroke])"

definition drawShape :: "Platform \<Rightarrow> ShapeElement \<Rightarrow> CanvasOp list" where
  "drawShape m sh =
     [StrokeStyle (shape_color sh), LineWidth (shape_strokeWidth sh), BeginPath]
     @ (case shape_type sh of
          Rectangle \<Rightarrow>
            [RectPath (shape_x1 sh) (shape_y1 sh)
               (fl (shape_x2 sh - shape_x1 sh)) (fl (shape_y2 sh - shape_y1 sh))]
        | Circle \<Rightarrow>
            [Arc (shape_x1 sh) (shape_y1 sh)
               (math_sqrt m (fl (math_pow m (fl (shape_x2 sh - shape_x1 sh)) 2
                                 + math_pow m (fl (shape_y2 sh - shape_y1 sh)) 2)))
               0 (fl (2 * Math_PI))]
        | Line \<Rightarrow>
            [MoveTo (shape_x1 sh) (shape_y1 sh), LineTo (shape_x2 sh) (shape_y2 sh)])
     @ [Stroke]"

definition drawText :: "TextElement \<Rightarrow> CanvasOp list" where
  "drawText t =
     [FillStyle (text_color t), Font (text_size t), TextAlignLeft, TextBaselineTop]
     @ (if text_hasOutline t
        then [StrokeStyle (text_outlineColor t), LineWidth (text_outlineWidth t),
              StrokeText (text_text t) (text_x t) (text_y t)]
        else [])
     @ [FillText (text_text t) (text_x t) (text_y t)]"

definition drawSelection :: "Studio \<Rightarrow> CanvasOp list" where
  "drawSelection s =
     (case selectedElement s of
        None \<Rightarrow> []
      | Some sel \<Rightarrow>
          [StrokeStyle ''#FBBC05'', LineWidth 2, SetLineDash [6, 3]]
          @ (case sel_type sel of
               text_element \<Rightarrow>
                 (case find (\<lambda>t. text_id t = sel_id sel) (texts s) of
                    Some el \<Rightarrow>
                      [StrokeMeasuredTextBox (text_text el) (fl (text_x el - 2))
                         (fl (text_y el - 2)) (fl (text_size el + 4))]
                  | None \<Rightarrow> [])
             | shape_element \<Rightarrow>
                 (case find (\<lambda>sh. shape_id sh = sel_id sel) (shapes s) of
                    Some el \<Rightarrow>
                      [StrokeRect (fl (min (shape_x1 el) (shape_x2 el) - 2))
                         (fl (min (shape_y1 el) (shape_y2 el) - 2))
                         (fl (\<bar>fl (shape_x2 el - shape_x1 el)\<bar> + 4))
                         (fl (\<bar>fl (shape_y2 el - shape_y1 el)\<bar> + 4))]
                  | None \<Rightarrow> []))
          @ [SetLineDash []])"

definition render :: "Studio \<Rightarrow> CanvasOp list" where
  "render s =
     (case originalImage s of
        None \<Rightarrow> []
      | Some img \<Rightarrow>
          (let w = real_of_int (naturalWidth img); h = real_of_int (naturalHeight img);
               cw = fst (canvasSize (platform s) img (transforms s));
               ch = snd (canvasSize (platform s) img (transforms s))
           in [SetCanvasSize cw ch,
               Save, Translate (fl (real_of_int cw / 2)) (fl (real_of_int ch / 2)),
               Rotate (radians (transforms s)),
               Scale (if horizontal (t_flip (transforms s)) then - 1 else 1)
                     (if vertical (t_flip (transforms s)) then - 1 else 1),
               SetFilter (adjustments s),
               DrawImage (fl (- w / 2)) (fl (- h / 2)) w h,
               Restore]
              @ concat (map drawPath (paths s))
              @ (if activeTool s = Some Remove then concat (map drawPath (removeMask s)) else [])
              @ concat (map (drawShape (platform s)) (shapes s))
              @ concat (map drawText (texts s))
              @ (case subjectMask s of Some m \<Rightarrow> [DrawMaskOnLoad m] | None \<Rightarrow> [])
              @ (case cropRect s of
                   Some r \<Rightarrow>
                     if activeTool s = Some Crop
                     then [Save, FillStyle ''rgba(0, 0, 0, 0.5)'',
                           FillRect 0 0 (real_of_int cw) (real_of_int ch),
                           ClearRect (rect_x r) (rect_y r) (rect_width r) (rect_height r),
                           StrokeStyle ''#4285F4'', LineWidth 2,
                           StrokeRect (rect_x r) (rect_y r) (rect_width r) (rect_height r),
                           Restore]
                     else []
                 | None \<Rightarrow> [])
              @ drawSelection s))"

section \<open>Pointer handlers\<close>

text \<open>
  The handlers take the result of \<open>getCanvasCoordinates(e)\<close>, the pointer position in
  canvas pixels, which is \<open>null\<close> when there is no canvas; \<open>handleMouseDown\<close> also
  takes the string \<open>Date.now().toString()\<close> it uses as the id of a new element.
\<close>

definition textHit :: "Point \<Rightarrow> TextElement \<Rightarrow> bool" where
  "textHit coords t =
     (pt_x coords \<ge> text_x t
      \<and> pt_x coords \<le> fl (text_x t
                          + fl (fl (text_size t * real (length (text_text t))) * literal_0_6))
      \<and> pt_y coords \<ge> text_y t \<and> pt_y coords \<le> fl (text_y t + text_size t))"

definition shapeHit :: "Point \<Rightarrow> ShapeElement \<Rightarrow> bool" where
  "shapeHit coords sh =
     (pt_x coords \<ge> min (shape_x1 sh) (shape_x2 sh)
      \<and> pt_x coords \<le> max (shape_x1 sh) (shape_x2 sh)
      \<and> pt_y coords \<ge> min (shape_y1 sh) (shape_y2 sh)
      \<and> pt_y coords \<le> max (shape_y1 sh) (shape_y2 sh))"

definition handleMouseDown :: "Point option \<Rightarrow> string \<Rightarrow> Studio \<Rightarrow> Studio" where
  "handleMouseDown e now s =
     (case e of
        None \<Rightarrow> s
      | Some coords \<Rightarrow>
          (let s1 = s\<lparr>startPoint := Some coords, isDrawing := True, selectedElement := None\<rparr>
           in if activeTool s = Some Draw \<or> activeTool s = Some Remove then
                (let newPath =
                       \<lparr>path_points = [coords],
                        path_color = (if activeTool s = Some Remove then ''#ff007f''
                                      else brushColor s),
                        path_size = (if activeTool s = Some Remove then removeBrushSize s
                                     else brushSize s),
                        path_id = now\<rparr>
                 in if activeTool s = Some Draw then s1\<lparr>paths := paths s @ [newPath]\<rparr>
                    else s1\<lparr>removeMask := removeMask s @ [newPath]\<rparr>)
              else if activeTool s = Some Text then s1\<lparr>textPosition := Some coords\<rparr>
              else if activeTool s = Some Shape then
                s1\<lparr>shapes := shapes s @
                     [\<lparr>shape_type = shapeType s, shape_x1 = pt_x coords, shape_y1 = pt_y coords,
                       shape_x2 = pt_x coords, shape_y2 = pt_y coords,
                       shape_color = shapeColor s, shape_strokeWidth = shapeStrokeWidth s,
                       shape_id = now\<rparr>]\<rparr>
              else if activeTool s = Some Select then
                (case find (textHit coords) (texts s) of
                   Some foundText \<Rightarrow>
                     s1\<lparr>selectedElement := Some \<lparr>sel_type = text_element, sel_id = text_id foundText\<rparr>,
                        isDragging := True,
                        dragStartPoint := \<lparr>pt_x = fl (pt_x coords - text_x foundText),
                                           pt_y = fl (pt_y coords - text_y foundText)\<rparr>\<rparr>
                 | None \<Rightarrow>
                     (case find (shapeHit coords) (shapes s) of
                        Some foundShape \<Rightarrow>
                          s1\<lparr>selectedElement :=
                               Some \<lparr>sel_type = shape_element, sel_id = shape_id foundShape\<rparr>,
                             isDragging := True,
                             dragStartPoint := \<lparr>pt_x = fl (pt_x coords - shape_x1 foundShape),
                                                pt_y = fl (pt_y coords - shape_y1 foundShape)\<rparr>\<rparr>
                      | None \<Rightarrow> s1))
              else s1))"

text \<open>
  The drag of a shape: \<open>dx\<close> and \<open>dy\<close> are computed from the shape's first control point
  and added to both control points; each operation rounds.
\<close>

definition dragShape :: "Point \<Rightarrow> Point \<Rightarrow> string \<Rightarrow> ShapeElement \<Rightarrow> ShapeElement" where
  "dragShape coords start i sh =
     (if shape_id sh \<noteq> i then sh
      else (let dx = fl (fl (pt_x coords - pt_x start) - shape_x1 sh);
                dy = fl (fl (pt_y coords - pt_y start) - shape_y1 sh)
            in sh\<lparr>shape_x1 := fl (shape_x1 sh + dx), shape_y1 := fl (shape_y1 sh + dy),
                  shape_x2 := fl (shape_x2 sh + dx), shape_y2 := fl (shape_y2 sh + dy)\<rparr>))"

definition dragText :: "Point \<Rightarrow> Point \<Rightarrow> string \<Rightarrow> TextElement \<Rightarrow> TextElement" where
  "dragText coords start i t =
     (if text_id t = i
      then t\<lparr>text_x := fl (pt_x coords - pt_x start), text_y := fl (pt_y coords - pt_y start)\<rparr>
      else t)"

text \<open>
  \<open>newPaths[newPaths.length-1].points.push(coords)\<close> and the two assignments to the last
  shape throw a \<open>TypeError\<close> when the list is empty.
\<close>

datatype error = TypeError

definition pushPoint :: "Point \<Rightarrow> Path list \<Rightarrow> error + Path list" where
  "pushPoint coords prev =
     (if prev = [] then Inl TypeError
      else Inr (butlast prev @ [(last prev)\<lparr>path_points := path_points (last prev) @ [coords]\<rparr>]))"

definition handleMouseMove :: "Point option \<Rightarrow> Studio \<Rightarrow> error + Studio" where
  "handleMouseMove e s =
     (if \<not> isDrawing s then Inr s
      else case e of
        None \<Rightarrow> Inr s
      | Some coords \<Rightarrow>
          if activeTool s = Some Select \<and> isDragging s \<and> selectedElement s \<noteq> None then
            (case selectedElement s of
               None \<Rightarrow> Inr s
             | Some sel \<Rightarrow>
                 (case sel_type sel of
                    text_element \<Rightarrow>
                      Inr (s\<lparr>texts := map (dragText coords (dragStartPoint s) (sel_id sel)) (texts s)\<rparr>)
                  | shape_element \<Rightarrow>
                      Inr (s\<lparr>shapes := map (dragShape coords (dragStartPoint s) (sel_id sel)) (shapes s)\<rparr>)))
          else if activeTool s = Some Crop \<and> startPoint s \<noteq> None then
            (case startPoint s of
               None \<Rightarrow> Inr s
             | Some start \<Rightarrow>
                 Inr (s\<lparr>cropRect := Some \<lparr>rect_x = min (pt_x start) (pt_x coords),
                                          rect_y = min (pt_y start) (pt_y coords),
                                          rect_width = \<bar>fl (pt_x start - pt_x coords)\<bar>,
                                          rect_height = \<bar>fl (pt_y start - pt_y coords)\<bar>\<rparr>\<rparr>))
          else if activeTool s = Some Draw then
            (case pushPoint coords (paths s) of
               Inl err \<Rightarrow> Inl err
             | Inr newPaths \<Rightarrow> Inr (s\<lparr>paths := newPaths\<rparr>))
          else if activeTool s = Some Remove then
            (case pushPoint coords (removeMask s) of
               Inl err \<Rightarrow> Inl err
             | Inr newPaths \<Rightarrow> Inr (s\<lparr>removeMask := newPaths\<rparr>))
          else if activeTool s = Some Shape then
            (if shapes s = [] then Inl TypeError
             else Inr (s\<lparr>shapes := butlast (shapes s) @
                        [(last (shapes s))\<lparr>shape_x2 := pt_x coords, shape_y2 := pt_y coords\<rparr>]\<rparr>))
          else Inr s)"

definition onlyPaths :: "Path list \<Rightarrow> PartialEditState" where
  "onlyPaths ps =
     \<lparr>p_adjustments = None, p_transforms = None, p_paths = Some ps, p_texts = None,
      p_shapes = None\<rparr>"

definition onlyShapes :: "ShapeElement list \<Rightarrow> PartialEditState" where
  "onlyShapes ss =
     \<lparr>p_adjustments = None, p_transforms = None, p_paths = None, p_texts = None,
      p_shapes = Some ss\<rparr>"

definition textsAndShapes :: "TextElement list \<Rightarrow> ShapeElement list \<Rightarrow> PartialEditState" where
  "textsAndShapes ts ss =
     \<lparr>p_adjustments = None, p_transforms = None, p_paths = None, p_texts = Some ts,
      p_shapes = Some ss\<rparr>"

definition handleMouseUpOrLeave :: "Studio \<Rightarrow> Studio" where
  "handleMouseUpOrLeave s =
     (let s1 = (if isDrawing s then
                  (if activeTool s = Some Draw then recordHistory (onlyPaths (paths s)) s
                   else if activeTool s = Some Shape then recordHistory (onlyShapes (shapes s)) s
                   else if activeTool s = Some Select \<and> isDragging s
                     then recordHistory (textsAndShapes (texts s) (shapes s)) s
                   else s)
                else s)
      in s1\<lparr>isDrawing := False, isDragging := False, startPoint := None\<rparr>)"

section \<open>Crop\<close>

text \<open>
  The canvas element is mounted exactly when \<open>originalImage\<close> is set, so
  \<open>canvasRef.current\<close> is \<open>null\<close> exactly when \<open>originalImage\<close> is. \<open>ctx\<close> tells whether the
  new canvas gave a 2D context. The handler assigns the rectangle's width and height to
  the \<open>width\<close> and \<open>height\<close> of the crop canvas, which keeps them as integers, and
  \<open>png\<close> is the string \<open>toDataURL\<close> returns for that canvas; the image decoded from it
  has the size of the canvas. For a canvas with no pixels \<open>toDataURL\<close> returns
  \<open>data:,\<close>, which decodes to no image: its natural size is 0 by 0. The canvas on
  screen has the size the renderer gave it for the last image that loaded, so it has
  pixels and \<open>drawImage\<close> accepts it as a source.
\<close>

definition canvasImage :: "int \<Rightarrow> int \<Rightarrow> string \<Rightarrow> SourceImage" where
  "canvasImage w h png =
     (if w = 0 \<or> h = 0 then \<lparr>naturalWidth = 0, naturalHeight = 0, dataUrl = ''data:,''\<rparr>
      else \<lparr>naturalWidth = w, naturalHeight = h, dataUrl = png\<rparr>)"

definition handleApplyCrop :: "bool \<Rightarrow> string \<Rightarrow> Studio \<Rightarrow> Studio" where
  "handleApplyCrop ctx png s =
     (case cropRect s of
        None \<Rightarrow> s
      | Some r \<Rightarrow>
          if originalImage s = None \<or> rect_width r \<le> 0 \<or> rect_height r \<le> 0 then s
          else if \<not> ctx then s
          else resetEdits INITIAL_EDIT_STATE
                 (s\<lparr>originalImage :=
                       Some (canvasImage (canvasWidth (rect_width r))
                               (canvasHeight (rect_height r)) png),
                    fileName := ''cropped-image.png'',
                    exportFileName := ''cropped-image''\<rparr>))"

text \<open>States to evaluate the pointer handlers, the renderer and the crop on.\<close>

definition photo :: SourceImage where
  "photo = \<lparr>naturalWidth = 100, naturalHeight = 100, dataUrl = ''data:image/png;base64,AAAA''\<rparr>"

definition loaded :: Studio where
  "loaded = resetEdits INITIAL_EDIT_STATE (initialStudio\<lparr>originalImage := Some photo\<rparr>)"

definition caption :: TextElement where
  "caption =
     \<lparr>text_text = ''Hi'', text_x = 10, text_y = 10, text_color = ''#ffffff'', text_size = 20,
      text_id = ''1'', text_hasOutline = False, text_outlineColor = ''#000000'',
      text_outlineWidth = 2\<rparr>"

definition box :: ShapeElement where
  "box =
     \<lparr>shape_type = Rectangle, shape_x1 = 60, shape_y1 = 60, shape_x2 = 40, shape_y2 = 80,
      shape_color = ''#4285F4'', shape_strokeWidth = 4, shape_id = ''2''\<rparr>"

definition withElements :: Studio where
  "withElements =
     loaded\<lparr>texts := [caption], shapes := [box], activeTool := Some Select,
            history := [INITIAL_EDIT_STATE\<lparr>e_texts := [caption], e_shapes := [box]\<rparr>]\<rparr>"

definition insideCrop :: Rect where
  "insideCrop = \<lparr>rect_x = 10, rect_y = 10, rect_width = 50, rect_height = 50\<rparr>"

definition fractionalCrop :: Rect where
  "fractionalCrop = \<lparr>rect_x = 10, rect_y = 10, rect_width = 101 / 2, rect_height = 81 / 2\<rparr>"

definition emptyCrop :: Rect where
  "emptyCrop = \<lparr>rect_x = 10, rect_y = 10, rect_width = 0, rect_height = 50\<rparr>"

definition clickPoint :: Point where
  "clickPoint = \<lparr>pt_x = 12, pt_y = 12\<rparr>"

text \<open>The select tool is pressed on the caption, and the pointer is not moved.\<close>

definition clicked :: Studio where
  "clicked = handleMouseDown (Some clickPoint) ''3'' withElements"

text \<open>The draw tool is active on the loaded photo; a path of one point.\<close>

definition drawing :: Studio where
  "drawing = loaded\<lparr>activeTool := Some Draw\<rparr>"

definition dot :: Path where
  "dot = \<lparr>path_points = [clickPoint], path_color = ''#ffffff'', path_size = 5, path_id = ''7''\<rparr>"

text \<open>The box of \<open>withElements\<close> is being dragged; points inside the box and far from both elements.\<close>

definition dragging :: Studio where
  "dragging =
     withElements\<lparr>isDrawing := True, isDragging := True,
        selectedElement := Some \<lparr>sel_type = shape_element, sel_id = ''2''\<rparr>,
        dragStartPoint := \<lparr>pt_x = - 10, pt_y = 10\<rparr>\<rparr>"

definition insideBox :: Point where
  "insideBox = \<lparr>pt_x = 50, pt_y = 70\<rparr>"

definition farPoint :: Point where
  "farPoint = \<lparr>pt_x = 90, pt_y = 5\<rparr>"

definition cropping :: "Rect \<Rightarrow> Studio" where
  "cropping r = withElements\<lparr>activeTool := Some Crop, cropRect := Some r\<rparr>"

text \<open>
  The brightness slider is dragged on the loaded photo: three inputs, 110, 120 and 150,
  the second 100 ms and the third 399 ms after the one before.
\<close>

definition sliderRun :: Studio where
  "sliderRun =
     adjustmentInput Brightness 150 (advance 399
       (adjustmentInput Brightness 120 (advance 100
         (adjustmentInput Brightness 110 loaded))))"

text \<open>
  The state after two commits and one undo: three snapshots, the index on the second.
\<close>

definition halfTurn :: Transforms where
  "halfTurn = INITIAL_TRANSFORMS\<lparr>t_rotate := 180\<rparr>"

definition rewound :: Studio where
  "rewound =
     initialStudio
       \<lparr>adjustments := brighter,
        history := [INITIAL_EDIT_STATE,
                    INITIAL_EDIT_STATE\<lparr>e_adjustments := brighter\<rparr>,
                    INITIAL_EDIT_STATE\<lparr>e_adjustments := brighter, e_transforms := quarterTurn\<rparr>],
        historyIndex := 1\<rparr>"

text \<open>
  On the loaded photo the brightness slider is set to 150, 100 ms later the rotate-right
  button is clicked, and 300 ms after that the timer of the slider is due.
\<close>

definition afterSlider :: Studio where
  "afterSlider = adjustmentEvent Brightness 150 (resetEvent loaded)"

definition afterRotate :: Studio where
  "afterRotate = rotateRightEvent (advance 100 afterSlider)"

definition afterTimer :: Studio where
  "afterTimer = advance 300 afterRotate"

text \<open>
  A photo of 200 by 100 pixels, upright with a horizontal flip, and after a quarter turn.
\<close>

definition landscape :: SourceImage where
  "landscape = \<lparr>naturalWidth = 200, naturalHeight = 100, dataUrl = ''data:image/png;base64,CCCC''\<rparr>"

definition wide :: Studio where
  "wide = resetEdits INITIAL_EDIT_STATE (initialStudio\<lparr>originalImage := Some landscape\<rparr>)"




text \<open>
  A small rectangle from (0.1, 0.1) to (0.2, 0.2), the coordinates being the doubles these
  literals denote; the select tool is pressed on its first corner and the pointer moves to
  the second.
\<close>

definition sliver :: ShapeElement where
  "sliver =
     \<lparr>shape_type = Rectangle,
      shape_x1 = 3602879701896397 / 36028797018963968,
      shape_y1 = 3602879701896397 / 36028797018963968,
      shape_x2 = 3602879701896397 / 18014398509481984,
      shape_y2 = 3602879701896397 / 18014398509481984,
      shape_color = ''#4285F4'', shape_strokeWidth = 4, shape_id = ''5''\<rparr>"

definition withSliver :: Studio where
  "withSliver =
     loaded\<lparr>shapes := [sliver], activeTool := Some Select,
            history := [INITIAL_EDIT_STATE\<lparr>e_shapes := [sliver]\<rparr>]\<rparr>"

definition pressPoint :: Point where
  "pressPoint = \<lparr>pt_x = 3602879701896397 / 36028797018963968,
                  pt_y = 3602879701896397 / 36028797018963968\<rparr>"

definition movePoint :: Point where
  "movePoint = \<lparr>pt_x = 3602879701896397 / 18014398509481984,
                 pt_y = 3602879701896397 / 18014398509481984\<rparr>"

definition sliverPressed :: Studio where
  "sliverPressed = handleMouseDown (Some pressPoint) ''6'' withSliver"

text \<open>
  A text of one character and size 14 anchored at the origin, and the pointer at the double
  nearest to 8.4, five pixels down.
\<close>

definition letter :: TextElement where
  "letter =
     \<lparr>text_text = ''a'', text_x = 0, text_y = 0, text_color = ''#ffffff'', text_size = 14,
      text_id = ''8'', text_hasOutline = False, text_outlineColor = ''#000000'',
      text_outlineWidth = 2\<rparr>"

definition withLetter :: Studio where
  "withLetter =
     loaded\<lparr>texts := [letter], activeTool := Some Select,
            history := [INITIAL_EDIT_STATE\<lparr>e_texts := [letter]\<rparr>]\<rparr>"

definition edgePoint :: Point where
  "edgePoint = \<lparr>pt_x = 4728779608739021 / 562949953421312, pt_y = 5\<rparr>"

text \<open>
  On the landscape photo the crop tool is pressed at (150, 20) and the pointer moves to
  (190.5, 60.5), which draws the rectangle \<open>drawnRect\<close>; the pointer is released, the
  photo is turned right in the transform panel, and the crop tool is chosen again.
\<close>

definition dragBegin :: Point where
  "dragBegin = \<lparr>pt_x = 150, pt_y = 20\<rparr>"

definition dragEnd :: Point where
  "dragEnd = \<lparr>pt_x = 381 / 2, pt_y = 121 / 2\<rparr>"

definition drawnRect :: Rect where
  "drawnRect = \<lparr>rect_x = 150, rect_y = 20, rect_width = 81 / 2, rect_height = 81 / 2\<rparr>"

definition cropPressed :: Studio where
  "cropPressed = handleMouseDown (Some dragBegin) ''1'' (setActiveTool (Some Crop) wide)"

definition cropReleased :: Studio where
  "cropReleased = handleMouseUpOrLeave (cropPressed\<lparr>cropRect := Some drawnRect\<rparr>)"

definition cropTurned :: Studio where
  "cropTurned =
     setActiveTool (Some Crop) (rotateRightEvent (setActiveTool (Some Transform) cropReleased))"

section \<open>Rounding\<close>

lemma fl_zero [simp]: "fl 0 = 0"
  by (simp add: fl_def)

lemma rne_of_int [simp]: "rne (of_int n) = n"
  by (simp add: rne_def)

lemma rne_minus: "rne (- y) = - rne y"
proof (cases "y \<in> \<int>")
  case True
  then obtain n where "y = of_int n" by (auto elim: Ints_cases)
  then show ?thesis
    by (metis of_int_minus rne_of_int)
next
  case False
  then have ne: "y \<noteq> of_int \<lfloor>y\<rfloor>"
    by (metis Ints_of_int)
  then have f: "\<lfloor>- y\<rfloor> = - \<lfloor>y\<rfloor> - 1"
    by (simp add: floor_minus ceiling_altdef)
  have r: "0 < y - of_int \<lfloor>y\<rfloor>" "y - of_int \<lfloor>y\<rfloor> < 1"
    using ne of_int_floor_le [of y] floor_correct [of y] by linarith+
  show ?thesis
    using r by (auto simp: rne_def Let_def f)
qed

lemma expo_eq:
  assumes "0 < x" "2 powi e \<le> x" "x < 2 powi (e + 1)" "- 1022 \<le> e"
  shows "expo x = e"
proof -
  have "2 powr real_of_int e = 2 powi e" "2 powr real_of_int (e + 1) = 2 powi (e + 1)"
    by (simp_all only: powr_real_of_int' [of 2, simplified])
  then have "\<lfloor>log 2 x\<rfloor> = e"
    using assms by (subst floor_log_eq_powr_iff) simp_all
  then show ?thesis using assms by (simp add: expo_def)
qed

lemma fl_eval:
  assumes "0 < x" "2 powi e \<le> x" "x < 2 powi (e + 1)" "- 1022 \<le> e"
  shows "fl x = 2 powi (e - 52) * of_int (rne (x / 2 powi (e - 52)))"
  using assms by (simp add: fl_def expo_eq [OF assms])

lemma fl_minus: "fl (- x) = - fl x"
  by (simp add: fl_def expo_def rne_minus)

lemma fl_of_nat_pos:
  assumes "0 < n" "n < 2 ^ 53"
  shows "fl (of_int n) = of_int n"
proof -
  define x :: real where "x = of_int n"
  define e where "e = \<lfloor>log 2 x\<rfloor>"
  have "real_of_int n < real_of_int (2 ^ 53)"
    using assms by (simp only: of_int_less_iff)
  then have x: "1 \<le> x" "x < 2 ^ 53" "0 < x"
    using assms by (simp_all add: x_def)
  have b: "2 powi e \<le> x" "x < 2 powi (e + 1)"
    using floor_log_eq_powr_iff [of x 2 e] x e_def
    by (simp_all only: powr_real_of_int' [of 2, simplified]) simp_all
  have e0: "0 \<le> e"
  proof (rule ccontr)
    assume "\<not> 0 \<le> e"
    then have "e + 1 \<le> 0" by simp
    then have "(2::real) powi (e + 1) \<le> 2 powi 0"
      by (intro power_int_increasing) simp_all
    with b x show False by simp
  qed
  have e52: "e \<le> 52"
  proof (rule ccontr)
    assume "\<not> e \<le> 52"
    then have "53 \<le> e" by simp
    then have "(2::real) powi 53 \<le> 2 powi e"
      by (intro power_int_increasing) simp_all
    with b x show False by simp
  qed
  define k where "k = nat (52 - e)"
  have q: "(2::real) powi (e - 52) = 1 / 2 ^ k"
    using e52 by (simp add: k_def power_int_def field_simps)
  have "x / 2 powi (e - 52) = of_int (n * 2 ^ k)"
    by (simp add: q x_def)
  then have "rne (x / 2 powi (e - 52)) = n * 2 ^ k"
    by (simp only: rne_of_int)
  then have "fl x = 1 / 2 ^ k * of_int (n * 2 ^ k)"
    using fl_eval [OF x(3) b] e0 q by simp
  then show ?thesis by (simp add: x_def)
qed

lemma fl_of_int: "\<bar>n\<bar> < 2 ^ 53 \<Longrightarrow> fl (of_int n) = of_int n"
proof (cases "n = 0")
  case True
  then show ?thesis by simp
next
  case False
  assume a: "\<bar>n\<bar> < 2 ^ 53"
  show ?thesis
  proof (cases "0 < n")
    case True
    then show ?thesis using a by (intro fl_of_nat_pos) simp_all
  next
    case f: False
    then have "fl (of_int (- n)) = of_int (- n)"
      using a False by (intro fl_of_nat_pos) simp_all
    then show ?thesis by (simp add: fl_minus)
  qed
qed

lemma fl_Ints: "x \<in> \<int> \<Longrightarrow> \<bar>x\<bar> < 2 ^ 53 \<Longrightarrow> fl x = x"
proof -
  assume "x \<in> \<int>" and b: "\<bar>x\<bar> < 2 ^ 53"
  then obtain n where n: "x = of_int n" by (auto elim: Ints_cases)
  then have "\<bar>n\<bar> < 2 ^ 53"
    using b by (metis of_int_abs of_int_less_iff of_int_numeral of_int_power)
  then show "fl x = x" by (simp add: n fl_of_int)
qed

section \<open>Redo\<close>

text \<open>
  C1. Redo is meant to move the index forward by one when it is below the last position.
  The handler's guard is the one the claim states, but its body subtracts one, as the body
  of undo does. With a history of two snapshots and the index at 0, redo leaves the index
  at -1 where the claim requires 1; the history itself is untouched.
\<close>

theorem handleRedo_decrements:
  "historyIndex (handleRedo (initialStudio\<lparr>history := [INITIAL_EDIT_STATE, INITIAL_EDIT_STATE],
       historyIndex := 0\<rparr>)) = - 1
   \<and> history (handleRedo (initialStudio\<lparr>history := [INITIAL_EDIT_STATE, INITIAL_EDIT_STATE],
       historyIndex := 0\<rparr>)) = [INITIAL_EDIT_STATE, INITIAL_EDIT_STATE]"
  by (simp add: handleRedo_def initialStudio_def)

section \<open>Undo after commits by handlers\<close>

lemma slice0_take: "- 1 \<le> i \<Longrightarrow> slice0 xs (i + 1) = take (nat (i + 1)) xs"
  by (auto simp: slice0_def Let_def min_def)

lemma recordHistory_history:
  "history (recordHistory p s) = slice0 (history s) (historyIndex s + 1) @ [spread (closure s) p]"
  by (simp add: recordHistory_def recordHistoryIn_def closure_def Let_def)

lemma recordHistory_index:
  "historyIndex (recordHistory p s) = int (length (history (recordHistory p s))) - 1"
  by (simp add: recordHistory_def recordHistoryIn_def closure_def Let_def)

lemma afterRender_history [simp]: "history (afterRender old new) = history new"
  by (simp add: afterRender_def restoreHistory_def Let_def)

lemma afterRender_index [simp]: "historyIndex (afterRender old new) = historyIndex new"
  by (simp add: afterRender_def restoreHistory_def Let_def)

lemma displayed_restoreHistory:
  "0 \<le> historyIndex s \<Longrightarrow> historyIndex s < int (length (history s)) \<Longrightarrow>
   displayed (restoreHistory s) = history s ! nat (historyIndex s)"
  by (simp add: restoreHistory_def displayed_def Let_def)

lemma commitEvent_atTail:
  assumes "historyIndex s = int (length (history s)) - 1"
  shows "history (commitEvent p s) = history s @ [spread (closure s) p]"
    and "atTail (commitEvent p s)"
proof -
  have sl: "slice0 (history s) (historyIndex s + 1) = history s"
    using assms by (simp add: slice0_def)
  show h: "history (commitEvent p s) = history s @ [spread (closure s) p]"
    by (simp add: commitEvent_def recordHistory_history sl)
  have i: "historyIndex (commitEvent p s) = int (length (history s))"
    by (simp add: commitEvent_def recordHistory_index recordHistory_history sl)
  have ne: "history (recordHistory p s) \<noteq> history s"
    by (simp add: recordHistory_history sl)
  have "displayed (commitEvent p s) = displayed (restoreHistory (recordHistory p s))"
    using ne by (simp add: commitEvent_def afterRender_def)
  also have "\<dots> = history (recordHistory p s) ! nat (historyIndex (recordHistory p s))"
    by (rule displayed_restoreHistory) (simp_all add: recordHistory_index recordHistory_history)
  also have "\<dots> = spread (closure s) p"
    by (simp add: recordHistory_index recordHistory_history sl)
  finally show "atTail (commitEvent p s)"
    using h i by (simp add: atTail_def)
qed

lemma setEdits_history [simp]:
  "history (setEdits e s) = history s" "historyIndex (setEdits e s) = historyIndex s"
  by (simp_all add: setEdits_def)

lemma commits_append: "commits (cs @ ds) s = commits ds (commits cs s)"
  by (induction cs arbitrary: s) auto

lemma commits_atTail:
  "atTail s \<Longrightarrow> atTail (commits cs s) \<and>
     (\<exists>hs. length hs = length cs \<and> history (commits cs s) = history s @ hs)"
proof (induction cs arbitrary: s)
  case Nil
  then show ?case by simp
next
  case (Cons c cs)
  obtain e p where c: "c = (e, p)" by (cases c)
  let ?t = "commitEvent p (setEdits e s)"
  have idx: "historyIndex (setEdits e s) = int (length (history (setEdits e s))) - 1"
    using Cons.prems by (simp add: atTail_def)
  have t: "atTail ?t" and h: "history ?t = history s @ [spread (closure (setEdits e s)) p]"
    using commitEvent_atTail [OF idx, of p] by simp_all
  from Cons.IH [OF t] obtain hs where
    "atTail (commits cs ?t)" "length hs = length cs" "history (commits cs ?t) = history ?t @ hs"
    by blast
  then show ?case
    by (auto simp: c h intro!: exI [of _ "spread (closure (setEdits e s)) p # hs"])
qed

lemma displayed_resetEdits: "displayed (resetEdits e s) = e"
  by (cases e) (simp add: displayed_def resetEdits_def)

lemma displayed_afterRender_reset:
  "displayed (afterRender s (resetEdits e s)) = e"
proof -
  have "displayed (restoreHistory (resetEdits e s)) = e"
    by (subst displayed_restoreHistory) (simp_all add: resetEdits_def)
  then show ?thesis
    by (simp add: afterRender_def displayed_resetEdits)
qed

lemma resetEvent_atTail: "atTail (resetEvent s)" "history (resetEvent s) = [INITIAL_EDIT_STATE]"
proof -
  show h: "history (resetEvent s) = [INITIAL_EDIT_STATE]"
    by (simp add: resetEvent_def resetEdits_def)
  have i: "historyIndex (resetEvent s) = 0"
    by (simp add: resetEvent_def resetEdits_def)
  have "displayed (resetEvent s) = INITIAL_EDIT_STATE"
    unfolding resetEvent_def by (rule displayed_afterRender_reset)
  then show "atTail (resetEvent s)"
    by (simp add: atTail_def h i)
qed

lemma undoEvent_step:
  assumes "0 < historyIndex s" "historyIndex s < int (length (history s))"
  shows "history (undoEvent s) = history s"
    and "historyIndex (undoEvent s) = historyIndex s - 1"
    and "displayed (undoEvent s) = history s ! nat (historyIndex s - 1)"
proof -
  have u: "handleUndo s = s\<lparr>historyIndex := historyIndex s - 1\<rparr>"
    using assms by (simp add: handleUndo_def)
  show "history (undoEvent s) = history s" "historyIndex (undoEvent s) = historyIndex s - 1"
    by (simp_all add: undoEvent_def u)
  have "displayed (undoEvent s) = displayed (restoreHistory (s\<lparr>historyIndex := historyIndex s - 1\<rparr>))"
    by (simp add: undoEvent_def u afterRender_def)
  also have "\<dots> = history s ! nat (historyIndex s - 1)"
    using assms by (subst displayed_restoreHistory) simp_all
  finally show "displayed (undoEvent s) = history s ! nat (historyIndex s - 1)" .
qed

lemma undos:
  "int m \<le> historyIndex s \<Longrightarrow> historyIndex s < int (length (history s)) \<Longrightarrow>
   displayed s = history s ! nat (historyIndex s) \<Longrightarrow>
   history ((undoEvent ^^ m) s) = history s \<and>
   historyIndex ((undoEvent ^^ m) s) = historyIndex s - int m \<and>
   displayed ((undoEvent ^^ m) s) = history s ! nat (historyIndex s - int m)"
proof (induction m)
  case 0
  then show ?case by simp
next
  case (Suc m)
  let ?t = "(undoEvent ^^ m) s"
  have ih: "history ?t = history s" "historyIndex ?t = historyIndex s - int m"
    using Suc by simp_all
  have pos: "0 < historyIndex ?t" "historyIndex ?t < int (length (history ?t))"
    using Suc.prems ih by simp_all
  show ?case
    using undoEvent_step [OF pos] ih by (simp add: algebra_simps)
qed

lemma nth_length_last: "length hs = k \<Longrightarrow> (a # hs) ! k = last (a # hs)"
  by (metis last_conv_nth length_Cons diff_Suc_1 list.discI)

text \<open>
  Commits made by handlers of the current render keep the history invariant. Start from
  a freshly reset session, make the commits of the list \<open>cs\<close> (N of them), each a call
  of \<open>recordHistory\<close> by a handler, and then undo M times, with M at most N. The edit
  state on display is then the snapshot that the commit number N - M appended to the
  history (for N - M = 0, the initial snapshot of the reset), which is also what was on
  display right after that commit.
\<close>

theorem undo_after_commits:
  assumes "m \<le> length cs"
  shows "displayed ((undoEvent ^^ m) (commits cs (resetEvent s)))
           = last (history (commits (take (length cs - m) cs) (resetEvent s)))
       \<and> displayed ((undoEvent ^^ m) (commits cs (resetEvent s)))
           = displayed (commits (take (length cs - m) cs) (resetEvent s))"
proof -
  let ?r = "resetEvent s"
  let ?k = "length cs - m"
  let ?mid = "commits (take ?k cs) ?r"
  let ?fin = "commits cs ?r"
  have r: "atTail ?r" by (rule resetEvent_atTail)
  from commits_atTail [OF r, of "take ?k cs"] obtain hs where
    mid: "atTail ?mid" and lhs: "length hs = ?k" and hmid: "history ?mid = [INITIAL_EDIT_STATE] @ hs"
    using assms by (auto simp: resetEvent_atTail)
  have "?fin = commits (drop ?k cs) ?mid"
    using commits_append [of "take ?k cs" "drop ?k cs" ?r] by simp
  with commits_atTail [OF mid, of "drop ?k cs"] obtain hs' where
    fin: "atTail ?fin" and lhs': "length hs' = m" and hfin: "history ?fin = history ?mid @ hs'"
    using assms by auto
  have len: "length (history ?fin) = Suc (length cs)"
    using hfin hmid lhs lhs' assms by simp
  have idx: "historyIndex ?fin = int (length cs)"
    using fin len by (simp add: atTail_def)
  have disp: "displayed ?fin = history ?fin ! nat (historyIndex ?fin)"
    using fin len idx by (simp add: atTail_def last_conv_nth)
  have "displayed ((undoEvent ^^ m) ?fin) = history ?fin ! nat (historyIndex ?fin - int m)"
    using undos [of m ?fin] assms idx len disp by simp
  also have "nat (historyIndex ?fin - int m) = ?k"
    using idx assms by simp
  also have "history ?fin ! ?k = history ?mid ! ?k"
  proof -
    have "?k < length (history ?mid)" using hmid lhs by simp
    then show ?thesis by (simp only: hfin nth_append if_True)
  qed
  also have "\<dots> = last (history ?mid)"
    using hmid lhs by (simp only: append_Cons append_Nil nth_length_last)
  finally have a: "displayed ((undoEvent ^^ m) ?fin) = last (history ?mid)" .
  moreover have "displayed ?mid = last (history ?mid)"
    using mid by (simp add: atTail_def)
  ultimately show ?thesis by simp
qed

theorem undo_after_commits_witness:
  "(1::nat) \<le> length twoCommits
   \<and> displayed ((undoEvent ^^ 1) (commits twoCommits (resetEvent initialStudio)))
       = last (history (commits (take (length twoCommits - 1) twoCommits) (resetEvent initialStudio)))
   \<and> displayed ((undoEvent ^^ 1) (commits twoCommits (resetEvent initialStudio)))
       = displayed (commits (take (length twoCommits - 1) twoCommits) (resetEvent initialStudio))"
proof -
  have h: "(1::nat) \<le> length twoCommits" by (simp add: twoCommits_def)
  show ?thesis using h undo_after_commits [OF h, of initialStudio] by blast
qed

section \<open>Commit\<close>

lemma handleRedo_recordHistory: "handleRedo (recordHistory p s) = recordHistory p s"
  by (simp add: handleRedo_def recordHistory_index)

lemma redoEvent_commitEvent: "redoEvent (commitEvent p s) = commitEvent p s"
proof -
  have "handleRedo (commitEvent p s) = commitEvent p s"
    by (simp add: handleRedo_def commitEvent_def recordHistory_index)
  then show ?thesis by (simp add: redoEvent_def afterRender_def)
qed

text \<open>
  C3 (as amended). For every history and every index from -1 upwards (the range the
  history invariant allows, and any index beyond the end), \<open>recordHistory\<close> keeps the
  snapshots up to the current index, drops the ones after it, appends the new edit state
  and sets the index to the new last position; redo right after a commit changes nothing.
\<close>

theorem recordHistory_truncates_appends:
  assumes "- 1 \<le> historyIndex s"
  shows "history (recordHistory p s)
           = take (nat (historyIndex s + 1)) (history s) @ [spread (closure s) p]
       \<and> historyIndex (recordHistory p s) = int (length (history (recordHistory p s))) - 1
       \<and> handleRedo (recordHistory p s) = recordHistory p s
       \<and> redoEvent (commitEvent p s) = commitEvent p s"
  using assms
  by (simp add: recordHistory_history slice0_take recordHistory_index
      handleRedo_recordHistory redoEvent_commitEvent)

theorem recordHistory_truncates_appends_witness:
  "- 1 \<le> historyIndex rewound
   \<and> history rewound
       = [INITIAL_EDIT_STATE,
          INITIAL_EDIT_STATE\<lparr>e_adjustments := brighter\<rparr>,
          INITIAL_EDIT_STATE\<lparr>e_adjustments := brighter, e_transforms := quarterTurn\<rparr>]
   \<and> historyIndex rewound = 1
   \<and> history (recordHistory (onlyTransforms halfTurn) rewound)
       = [INITIAL_EDIT_STATE,
          INITIAL_EDIT_STATE\<lparr>e_adjustments := brighter\<rparr>,
          INITIAL_EDIT_STATE\<lparr>e_adjustments := brighter, e_transforms := halfTurn\<rparr>]
   \<and> historyIndex (recordHistory (onlyTransforms halfTurn) rewound) = 2
   \<and> handleRedo (recordHistory (onlyTransforms halfTurn) rewound)
       = recordHistory (onlyTransforms halfTurn) rewound
   \<and> redoEvent (commitEvent (onlyTransforms halfTurn) rewound)
       = commitEvent (onlyTransforms halfTurn) rewound"
proof -
  have h: "- 1 \<le> historyIndex rewound" by (simp add: rewound_def)
  have f: "historyIndex rewound = 1"
    "history rewound = [INITIAL_EDIT_STATE,
                    INITIAL_EDIT_STATE\<lparr>e_adjustments := brighter\<rparr>,
                    INITIAL_EDIT_STATE\<lparr>e_adjustments := brighter, e_transforms := quarterTurn\<rparr>]"
    by (simp_all add: rewound_def)
  have c: "spread (closure rewound) (onlyTransforms halfTurn)
      = INITIAL_EDIT_STATE\<lparr>e_adjustments := brighter, e_transforms := halfTurn\<rparr>"
    by (simp add: spread_def closure_def onlyTransforms_def rewound_def initialStudio_def
        INITIAL_EDIT_STATE_def)
  show ?thesis
    using h f(2) recordHistory_truncates_appends [OF h, of "onlyTransforms halfTurn"]
    by (simp add: f c)
qed

lemma redoEvent_history:
  "history (redoEvent s) = history s"
  "historyIndex (redoEvent s) =
     (if historyIndex s < int (length (history s)) - 1 then historyIndex s - 1 else historyIndex s)"
  by (simp_all add: redoEvent_def handleRedo_def)

lemma belowStart_history:
  "history belowStart
     = [INITIAL_EDIT_STATE, spread (closure (resetEvent initialStudio)) (onlyAdjustments brighter)]"
  "historyIndex belowStart = - 2"
proof -
  let ?r = "resetEvent initialStudio"
  let ?c = "commitEvent (onlyAdjustments brighter) ?r"
  have r: "historyIndex ?r = int (length (history ?r)) - 1"
    using resetEvent_atTail(1) [of initialStudio] by (simp add: atTail_def)
  have hc: "history ?c = [INITIAL_EDIT_STATE, spread (closure ?r) (onlyAdjustments brighter)]"
    using commitEvent_atTail(1) [OF r] by (simp add: resetEvent_atTail)
  have ic: "historyIndex ?c = 1"
    using commitEvent_atTail(2) [OF r, of "onlyAdjustments brighter"] hc by (simp add: atTail_def)
  have u: "history (undoEvent ?c) = history ?c" "historyIndex (undoEvent ?c) = 0"
    using undoEvent_step [of ?c] hc ic by simp_all
  have r1: "history (redoEvent (undoEvent ?c)) = history ?c"
    "historyIndex (redoEvent (undoEvent ?c)) = - 1"
    using u hc by (simp_all add: redoEvent_history)
  have r2: "history (redoEvent (redoEvent (undoEvent ?c))) = history ?c"
    "historyIndex (redoEvent (redoEvent (undoEvent ?c))) = - 2"
    using r1 hc by (simp_all add: redoEvent_history)
  show "history belowStart
     = [INITIAL_EDIT_STATE, spread (closure (resetEvent initialStudio)) (onlyAdjustments brighter)]"
    "historyIndex belowStart = - 2"
    using r2 hc by (simp_all add: belowStart_def)
qed

text \<open>
  C3 as stated, for every index, fails below -1, where \<open>slice(0, index + 1)\<close> counts
  from the end. After a reset, one commit, one undo and two clicks on redo the index is
  -2; every snapshot lies after it, yet the next commit keeps the first one.
\<close>

theorem recordHistory_negative_index_counterexample:
  "historyIndex belowStart = - 2
   \<and> history (recordHistory (onlyTransforms quarterTurn) belowStart)
       = [INITIAL_EDIT_STATE, spread (closure belowStart) (onlyTransforms quarterTurn)]
   \<and> history (recordHistory (onlyTransforms quarterTurn) belowStart)
       \<noteq> take (nat (historyIndex belowStart + 1)) (history belowStart)
           @ [spread (closure belowStart) (onlyTransforms quarterTurn)]"
  by (simp add: recordHistory_history belowStart_history slice0_def)

section \<open>Debounced commit\<close>

lemma closure_upd [simp]:
  "closure (s\<lparr>timers := ts\<rparr>) = closure s"
  "closure (s\<lparr>lastTimerId := n\<rparr>) = closure s"
  "closure (s\<lparr>historyTimeoutRef := r\<rparr>) = closure s"
  "closure (s\<lparr>clock := k\<rparr>) = closure s"
  by (simp_all add: closure_def)

lemma closure_closureOf: "closure s = closureOf (displayed s) (history s) (historyIndex s)"
  by (simp add: closure_def closureOf_def displayed_def)

lemma displayed_upd [simp]:
  "displayed (s\<lparr>timers := ts\<rparr>) = displayed s"
  "displayed (s\<lparr>clock := k\<rparr>) = displayed s"
  by (simp_all add: displayed_def)

lemma setEdits_fields [simp]:
  "timers (setEdits e s) = timers s" "historyTimeoutRef (setEdits e s) = historyTimeoutRef s"
  "clock (setEdits e s) = clock s"
  by (simp_all add: setEdits_def)

lemma displayed_setEdits [simp]: "displayed (setEdits e s) = e"
  by (cases e) (simp add: displayed_def setEdits_def)

lemma debounce_first:
  assumes "onlyRefTimer s"
  shows "pendingOnly (closure s) p (setEdits e (recordHistoryWithDebounce p s))"
proof -
  have "filter (\<lambda>t. timer_id t \<noteq> i) (timers s) = []" if "historyTimeoutRef s = Some i" for i
    using assms that by (auto simp: onlyRefTimer_def list_all_iff filter_empty_conv)
  moreover have "timers s = []" if "historyTimeoutRef s = None"
    using assms that by (cases "timers s") (auto simp: onlyRefTimer_def)
  moreover have "timers s = []" if "historyTimeoutRef s = Some 0"
    using assms that by (cases "timers s") (auto simp: onlyRefTimer_def)
  ultimately show ?thesis
    by (cases "historyTimeoutRef s")
       (auto simp: recordHistoryWithDebounce_def pendingOnly_def clearTimeout_def Let_def
          closure_def)
qed

lemma pendingOnly_onlyRefTimer:
  "pendingOnly c p s \<Longrightarrow> onlyRefTimer s \<and> history s = c_history c \<and> historyIndex s = c_historyIndex c"
  by (auto simp: pendingOnly_def onlyRefTimer_def split: list.splits)

lemma advance_quiet:
  assumes "pendingOnly c p s" "d < 400"
  shows "advance d s = s\<lparr>clock := clock s + d\<rparr>"
  using assms by (auto simp: pendingOnly_def advance_def Let_def split: list.splits)

lemma debounce_next:
  assumes "pendingOnly c p s" "d < 400"
  shows "pendingOnly (closureOf (displayed s) (c_history c) (c_historyIndex c)) q
           (setEdits e (recordHistoryWithDebounce q (advance d s)))"
proof -
  let ?u = "s\<lparr>clock := clock s + d\<rparr>"
  have "onlyRefTimer ?u"
    using pendingOnly_onlyRefTimer [OF assms(1)] by (simp add: onlyRefTimer_def)
  moreover have "closure ?u = closureOf (displayed s) (c_history c) (c_historyIndex c)"
    using pendingOnly_onlyRefTimer [OF assms(1)] by (simp add: closure_closureOf)
  ultimately show ?thesis
    using debounce_first [of ?u q e] by (simp add: advance_quiet [OF assms])
qed

lemma hooksAtLastCall_Cons:
  "hooksAtLastCall h ((d0, e0, p0) # (d, e, q) # calls) = hooksAtLastCall e0 ((0, e, q) # calls)"
  by (cases calls) (simp_all add: hooksAtLastCall_def)

lemma last_arg_Cons:
  "last (p # map (\<lambda>c. snd (snd c)) ((d, e, q) # calls)) = last (q # map (\<lambda>c. snd (snd c)) calls)"
  by simp

lemma debounceBurst_pending:
  "pendingOnly (closureOf h hs i) p s \<Longrightarrow> displayed s = e0 \<Longrightarrow>
   list_all (\<lambda>c. fst c < 400) calls \<Longrightarrow>
   pendingOnly (closureOf (hooksAtLastCall h ((0, e0, p) # calls)) hs i)
     (last (p # map (\<lambda>c. snd (snd c)) calls)) (debounceBurst calls s)"
proof (induction calls arbitrary: h p s e0)
  case Nil
  then show ?case by (simp add: hooksAtLastCall_def)
next
  case (Cons a calls)
  obtain d e q where a: "a = (d, e, q)" by (cases a)
  let ?u = "setEdits e (recordHistoryWithDebounce q (advance d s))"
  have "pendingOnly (closureOf e0 hs i) q ?u"
    using debounce_next [OF Cons.prems(1), of d q e] Cons.prems a by (simp add: closureOf_def)
  moreover have "displayed ?u = e" by simp
  moreover have "list_all (\<lambda>c. fst c < 400) calls" using Cons.prems by simp
  ultimately have "pendingOnly (closureOf (hooksAtLastCall e0 ((0, e, q) # calls)) hs i)
     (last (q # map (\<lambda>c. snd (snd c)) calls)) (debounceBurst calls ?u)"
    by (rule Cons.IH)
  then show ?case
    by (simp only: a debounceBurst.simps hooksAtLastCall_Cons last_arg_Cons)
qed

lemma advance_fire:
  assumes "pendingOnly c p s" "400 \<le> t"
  shows "history (advance t s) = slice0 (c_history c) (c_historyIndex c + 1) @ [spread c p]"
    and "historyIndex (advance t s) = int (length (history (advance t s))) - 1"
    and "timers (advance t s) = []"
    and "displayed (advance t s) = spread c p"
proof -
  obtain tm where tm: "timers s = [tm]" "due tm = clock s + 400" "timer_env tm = c" "timer_arg tm = p"
    using assms(1) by (auto simp: pendingOnly_def split: list.splits)
  let ?u = "s\<lparr>clock := clock s + t, timers := []\<rparr>"
  let ?v = "recordHistoryIn c p ?u"
  have adv: "advance t s = afterRender ?u ?v"
    using tm assms(2) by (simp add: advance_def Let_def fireTimer_def)
  have hv: "history ?v = slice0 (c_history c) (c_historyIndex c + 1) @ [spread c p]"
    and iv: "historyIndex ?v = int (length (history ?v)) - 1"
    and tv: "timers ?v = []"
    by (simp_all add: recordHistoryIn_def Let_def)
  show "history (advance t s) = slice0 (c_history c) (c_historyIndex c + 1) @ [spread c p]"
    by (simp add: adv hv)
  show "historyIndex (advance t s) = int (length (history (advance t s))) - 1"
    using iv by (simp add: adv)
  show "timers (advance t s) = []"
    using tv by (simp add: adv afterRender_def restoreHistory_def Let_def)
  have ne: "\<not> (history ?v = history ?u \<and> historyIndex ?v = historyIndex ?u)"
  proof
    assume e: "history ?v = history ?u \<and> historyIndex ?v = historyIndex ?u"
    have hu: "history ?u = c_history c" "historyIndex ?u = c_historyIndex c"
      using pendingOnly_onlyRefTimer [OF assms(1)] by simp_all
    have "length (slice0 (c_history c) (c_historyIndex c + 1)) + 1 = length (c_history c)"
      using e hv hu by (metis length_append_singleton Suc_eq_plus1)
    moreover have "c_historyIndex c = int (length (c_history c)) - 1"
    proof -
      have "historyIndex ?v = c_historyIndex c" using e hu by simp
      moreover have "history ?v = c_history c" using e hu by simp
      ultimately show ?thesis using iv by simp
    qed
    ultimately show False by (simp add: slice0_def)
  qed
  have "displayed (advance t s) = displayed (restoreHistory ?v)"
    by (simp only: adv afterRender_def if_not_P [OF ne])
  also have "\<dots> = history ?v ! nat (historyIndex ?v)"
    by (rule displayed_restoreHistory) (simp_all add: iv hv)
  also have "\<dots> = spread c p"
    by (simp add: iv hv)
  finally show "displayed (advance t s) = spread c p" .
qed

lemma spread_closureOf:
  "spread (closureOf h hs i) p =
     \<lparr>e_adjustments = (case p_adjustments p of Some a \<Rightarrow> a | None \<Rightarrow> e_adjustments h),
      e_transforms = (case p_transforms p of Some t \<Rightarrow> t | None \<Rightarrow> e_transforms h),
      e_paths = (case p_paths p of Some ps \<Rightarrow> ps | None \<Rightarrow> e_paths h),
      e_texts = (case p_texts p of Some ts \<Rightarrow> ts | None \<Rightarrow> e_texts h),
      e_shapes = (case p_shapes p of Some ss \<Rightarrow> ss | None \<Rightarrow> e_shapes h)\<rparr>"
  by (simp add: spread_def closureOf_def split: option.splits)

text \<open>
  C4. Let the debounced commit be called K times (K at least 1) by handlers that may
  also set the edit hooks, as the slider handler does: first with \<open>p\<close>, then with the
  arguments of \<open>calls\<close>, each call less than 400 ms after the one before it, in a state
  whose timer table holds at most the timer of the ref. During the burst, and until
  400 ms have passed since the last call, the history is unchanged. Once 400 ms have
  passed, exactly one timer has fired: the history is the old one, cut after the current
  index, with exactly one new entry. Each field of that entry that the last call's
  argument holds is the argument's value, and each other field is the value the edit
  hook had when the last call was made. The index is on the new entry, the entry is on
  display and no timer is left.
\<close>

theorem debounce_coalesces:
  assumes "onlyRefTimer s" and "list_all (\<lambda>c. fst c < 400) calls"
    and "400 \<le> t" and "t' < 400"
  shows "history (debounceBurst calls (setEdits e (recordHistoryWithDebounce p s))) = history s
       \<and> history (advance t' (debounceBurst calls (setEdits e (recordHistoryWithDebounce p s))))
           = history s
       \<and> history (advance t (debounceBurst calls (setEdits e (recordHistoryWithDebounce p s))))
           = slice0 (history s) (historyIndex s + 1)
             @ [\<lparr>e_adjustments =
                   (case p_adjustments (last (p # map (\<lambda>c. snd (snd c)) calls)) of
                      Some a \<Rightarrow> a
                    | None \<Rightarrow> e_adjustments (hooksAtLastCall (displayed s) ((0, e, p) # calls))),
                 e_transforms =
                   (case p_transforms (last (p # map (\<lambda>c. snd (snd c)) calls)) of
                      Some tr \<Rightarrow> tr
                    | None \<Rightarrow> e_transforms (hooksAtLastCall (displayed s) ((0, e, p) # calls))),
                 e_paths =
                   (case p_paths (last (p # map (\<lambda>c. snd (snd c)) calls)) of
                      Some ps \<Rightarrow> ps
                    | None \<Rightarrow> e_paths (hooksAtLastCall (displayed s) ((0, e, p) # calls))),
                 e_texts =
                   (case p_texts (last (p # map (\<lambda>c. snd (snd c)) calls)) of
                      Some ts \<Rightarrow> ts
                    | None \<Rightarrow> e_texts (hooksAtLastCall (displayed s) ((0, e, p) # calls))),
                 e_shapes =
                   (case p_shapes (last (p # map (\<lambda>c. snd (snd c)) calls)) of
                      Some ss \<Rightarrow> ss
                    | None \<Rightarrow> e_shapes (hooksAtLastCall (displayed s) ((0, e, p) # calls)))\<rparr>]
       \<and> historyIndex (advance t (debounceBurst calls (setEdits e (recordHistoryWithDebounce p s))))
           = int (length (slice0 (history s) (historyIndex s + 1)))
       \<and> displayed (advance t (debounceBurst calls (setEdits e (recordHistoryWithDebounce p s))))
           = last (history (advance t
               (debounceBurst calls (setEdits e (recordHistoryWithDebounce p s)))))
       \<and> timers (advance t (debounceBurst calls (setEdits e (recordHistoryWithDebounce p s)))) = []"
proof -
  let ?f = "setEdits e (recordHistoryWithDebounce p s)"
  let ?b = "debounceBurst calls ?f"
  let ?q = "last (p # map (\<lambda>c. snd (snd c)) calls)"
  let ?h = "hooksAtLastCall (displayed s) ((0, e, p) # calls)"
  let ?c = "closureOf ?h (history s) (historyIndex s)"
  have first: "pendingOnly (closureOf (displayed s) (history s) (historyIndex s)) p ?f"
    using debounce_first [OF assms(1), of p e] by (simp only: closure_closureOf)
  have pend: "pendingOnly ?c ?q ?b"
    by (rule debounceBurst_pending [OF first _ assms(2)]) simp
  have hb: "history ?b = history s"
    using pendingOnly_onlyRefTimer [OF pend] by (simp add: closureOf_def)
  have q: "history (advance t' ?b) = history ?b"
    by (simp add: advance_quiet [OF pend assms(4)])
  note f = advance_fire [OF pend assms(3)]
  have c: "c_history ?c = history s" "c_historyIndex ?c = historyIndex s"
    by (simp_all add: closureOf_def)
  show ?thesis
    using hb q f by (simp add: c spread_closureOf)
qed

lemma adjustmentInput_eq:
  "adjustmentInput key v s =
     setEdits ((displayed s)\<lparr>e_adjustments := withAdjustment key v (adjustments s)\<rparr>)
       (recordHistoryWithDebounce (onlyAdjustments (withAdjustment key v (adjustments s))) s)"
  by (simp add: adjustmentInput_def setEdits_def displayed_def recordHistoryWithDebounce_def
      clearTimeout_def Let_def split: option.splits)

lemma loaded_fields:
  "displayed loaded = INITIAL_EDIT_STATE" "adjustments loaded = INITIAL_ADJUSTMENTS"
  "history loaded = [INITIAL_EDIT_STATE]" "historyIndex loaded = 0" "timers loaded = []"
  "originalImage loaded = Some photo" "transforms loaded = INITIAL_TRANSFORMS"
  "platform loaded = browserMath" "clock loaded = 0"
  by (simp_all add: loaded_def displayed_resetEdits)
     (simp_all add: resetEdits_def initialStudio_def INITIAL_EDIT_STATE_def)

lemma onlyRefTimer_loaded: "onlyRefTimer loaded"
  by (simp add: onlyRefTimer_def loaded_fields)

lemma sliderRun_eq:
  "sliderRun = debounceBurst sliderBurst
     (setEdits (INITIAL_EDIT_STATE\<lparr>e_adjustments := INITIAL_ADJUSTMENTS\<lparr>brightness := 110\<rparr>\<rparr>)
        (recordHistoryWithDebounce (onlyAdjustments (INITIAL_ADJUSTMENTS\<lparr>brightness := 110\<rparr>))
           loaded))"
proof -
  let ?e1 = "INITIAL_EDIT_STATE\<lparr>e_adjustments := INITIAL_ADJUSTMENTS\<lparr>brightness := 110\<rparr>\<rparr>"
  let ?p1 = "onlyAdjustments (INITIAL_ADJUSTMENTS\<lparr>brightness := 110\<rparr>)"
  let ?e2 = "INITIAL_EDIT_STATE\<lparr>e_adjustments := INITIAL_ADJUSTMENTS\<lparr>brightness := 120\<rparr>\<rparr>"
  let ?p2 = "onlyAdjustments (INITIAL_ADJUSTMENTS\<lparr>brightness := 120\<rparr>)"
  let ?u1 = "setEdits ?e1 (recordHistoryWithDebounce ?p1 loaded)"
  let ?u2 = "setEdits ?e2 (recordHistoryWithDebounce ?p2 (advance 100 ?u1))"
  have 1: "adjustmentInput Brightness 110 loaded = ?u1"
    by (simp add: adjustmentInput_eq loaded_fields withAdjustment_def)
  have p1: "pendingOnly (closure loaded) ?p1 ?u1"
    by (rule debounce_first [OF onlyRefTimer_loaded])
  have d1: "displayed (advance 100 ?u1) = ?e1"
    by (simp add: advance_quiet [OF p1])
  then have a1: "adjustments (advance 100 ?u1) = INITIAL_ADJUSTMENTS\<lparr>brightness := 110\<rparr>"
    by (metis EditState.select_convs(1) EditState.update_convs(1) EditState.surjective displayed_def)
  have 2: "adjustmentInput Brightness 120 (advance 100 ?u1) = ?u2"
    by (simp add: adjustmentInput_eq d1 a1 withAdjustment_def)
  have p2: "pendingOnly (closureOf (displayed ?u1) (c_history (closure loaded))
      (c_historyIndex (closure loaded))) ?p2 ?u2"
    by (rule debounce_next [OF p1]) simp
  have d2: "displayed (advance 399 ?u2) = ?e2"
    by (simp add: advance_quiet [OF p2])
  then have a2: "adjustments (advance 399 ?u2) = INITIAL_ADJUSTMENTS\<lparr>brightness := 120\<rparr>"
    by (metis EditState.select_convs(1) EditState.update_convs(1) EditState.surjective displayed_def)
  have 3: "adjustmentInput Brightness 150 (advance 399 ?u2)
      = setEdits (INITIAL_EDIT_STATE\<lparr>e_adjustments := brighter\<rparr>)
          (recordHistoryWithDebounce (onlyAdjustments brighter) (advance 399 ?u2))"
    by (simp add: adjustmentInput_eq d2 a2 withAdjustment_def brighter_def)
  show ?thesis
    by (simp add: sliderRun_def sliderBurst_def 1 2 3)
qed

theorem debounce_coalesces_witness:
  "onlyRefTimer loaded \<and> list_all (\<lambda>c. fst c < 400) sliderBurst
   \<and> (400::nat) \<le> 400 \<and> (399::nat) < 400
   \<and> history sliderRun = [INITIAL_EDIT_STATE]
   \<and> history (advance 399 sliderRun) = [INITIAL_EDIT_STATE]
   \<and> history (advance 400 sliderRun)
       = [INITIAL_EDIT_STATE, INITIAL_EDIT_STATE\<lparr>e_adjustments := brighter\<rparr>]
   \<and> historyIndex (advance 400 sliderRun) = 1
   \<and> displayed (advance 400 sliderRun) = INITIAL_EDIT_STATE\<lparr>e_adjustments := brighter\<rparr>
   \<and> timers (advance 400 sliderRun) = []"
proof -
  have h2: "list_all (\<lambda>c. fst c < 400) sliderBurst"
    by (simp add: sliderBurst_def)
  have h3: "(400::nat) \<le> 400" and h4: "(399::nat) < 400" by simp_all
  have l: "last (onlyAdjustments (INITIAL_ADJUSTMENTS\<lparr>brightness := 110\<rparr>)
             # map (\<lambda>c. snd (snd c)) sliderBurst) = onlyAdjustments brighter"
    by (simp add: sliderBurst_def)
  have k: "hooksAtLastCall (displayed loaded)
       ((0, INITIAL_EDIT_STATE\<lparr>e_adjustments := INITIAL_ADJUSTMENTS\<lparr>brightness := 110\<rparr>\<rparr>,
           onlyAdjustments (INITIAL_ADJUSTMENTS\<lparr>brightness := 110\<rparr>)) # sliderBurst)
     = INITIAL_EDIT_STATE\<lparr>e_adjustments := INITIAL_ADJUSTMENTS\<lparr>brightness := 120\<rparr>\<rparr>"
    by (simp add: hooksAtLastCall_def sliderBurst_def)
  note t = debounce_coalesces [OF onlyRefTimer_loaded h2 h3 h4,
      of "INITIAL_EDIT_STATE\<lparr>e_adjustments := INITIAL_ADJUSTMENTS\<lparr>brightness := 110\<rparr>\<rparr>"
         "onlyAdjustments (INITIAL_ADJUSTMENTS\<lparr>brightness := 110\<rparr>)", folded sliderRun_eq]
  have e: "\<lparr>e_adjustments = brighter, e_transforms = INITIAL_TRANSFORMS, e_paths = [],
      e_texts = [], e_shapes = []\<rparr> = INITIAL_EDIT_STATE\<lparr>e_adjustments := brighter\<rparr>"
    by (simp add: INITIAL_EDIT_STATE_def)
  show ?thesis
    using onlyRefTimer_loaded h2 t
    by (simp only: l k) (simp add: loaded_fields slice0_def onlyAdjustments_def
        INITIAL_EDIT_STATE_def)
qed

section \<open>A commit from the debounce timer\<close>

lemma afterRender_timers [simp]:
  "timers (afterRender old new) = timers new"
  "clock (afterRender old new) = clock new"
  "historyTimeoutRef (afterRender old new) = historyTimeoutRef new"
  by (simp_all add: afterRender_def restoreHistory_def Let_def)

lemma displayed_afterRender:
  "0 \<le> historyIndex new \<Longrightarrow> historyIndex new < int (length (history new)) \<Longrightarrow>
   displayed new = history new ! nat (historyIndex new) \<Longrightarrow>
   displayed (afterRender old new) = history new ! nat (historyIndex new)"
  by (simp add: afterRender_def displayed_restoreHistory)

lemma displayed_afterRender_changed:
  "0 \<le> historyIndex new \<Longrightarrow> historyIndex new < int (length (history new)) \<Longrightarrow>
   history new \<noteq> history old \<Longrightarrow>
   displayed (afterRender old new) = history new ! nat (historyIndex new)"
  by (simp add: afterRender_def displayed_restoreHistory)

lemma reset_loaded:
  "history (resetEvent loaded) = [INITIAL_EDIT_STATE]" "historyIndex (resetEvent loaded) = 0"
  "displayed (resetEvent loaded) = INITIAL_EDIT_STATE" "timers (resetEvent loaded) = []"
  "clock (resetEvent loaded) = 0"
proof -
  show "history (resetEvent loaded) = [INITIAL_EDIT_STATE]" by (rule resetEvent_atTail)
  show "historyIndex (resetEvent loaded) = 0" "displayed (resetEvent loaded) = INITIAL_EDIT_STATE"
    using resetEvent_atTail [of loaded] by (simp_all add: atTail_def)
  show "timers (resetEvent loaded) = []" "clock (resetEvent loaded) = 0"
    by (simp_all add: resetEvent_def resetEdits_def loaded_fields)
qed

lemma closure_reset_loaded:
  "closure (resetEvent loaded) = closureOf INITIAL_EDIT_STATE [INITIAL_EDIT_STATE] 0"
  by (simp add: closure_closureOf reset_loaded)

lemma afterSlider_fields:
  "history afterSlider = [INITIAL_EDIT_STATE]" "historyIndex afterSlider = 0"
  "displayed afterSlider = INITIAL_EDIT_STATE\<lparr>e_adjustments := brighter\<rparr>"
  "pendingOnly (closureOf INITIAL_EDIT_STATE [INITIAL_EDIT_STATE] 0) (onlyAdjustments brighter)
     afterSlider"
  "clock afterSlider = 0"
proof -
  let ?r = "resetEvent loaded"
  have adj: "adjustments ?r = INITIAL_ADJUSTMENTS"
    using reset_loaded(3) by (metis EditState.select_convs(1) displayed_def INITIAL_EDIT_STATE_def)
  have i: "adjustmentInput Brightness 150 ?r
      = setEdits (INITIAL_EDIT_STATE\<lparr>e_adjustments := brighter\<rparr>)
          (recordHistoryWithDebounce (onlyAdjustments brighter) ?r)"
    by (simp add: adjustmentInput_eq reset_loaded adj withAdjustment_def brighter_def)
  have o: "onlyRefTimer ?r" by (simp add: onlyRefTimer_def reset_loaded)
  have p: "pendingOnly (closure ?r) (onlyAdjustments brighter) (adjustmentInput Brightness 150 ?r)"
    unfolding i by (rule debounce_first [OF o])
  have h: "history (adjustmentInput Brightness 150 ?r) = history ?r"
    "historyIndex (adjustmentInput Brightness 150 ?r) = historyIndex ?r"
    using pendingOnly_onlyRefTimer [OF p] by (simp_all add: closure_def)
  then have a: "afterSlider = adjustmentInput Brightness 150 ?r"
    by (simp add: afterSlider_def adjustmentEvent_def afterRender_def)
  show "history afterSlider = [INITIAL_EDIT_STATE]" "historyIndex afterSlider = 0"
    using h by (simp_all add: a reset_loaded)
  show "displayed afterSlider = INITIAL_EDIT_STATE\<lparr>e_adjustments := brighter\<rparr>"
    by (simp add: a i)
  show "pendingOnly (closureOf INITIAL_EDIT_STATE [INITIAL_EDIT_STATE] 0) (onlyAdjustments brighter)
     afterSlider"
    using p by (simp add: a closure_reset_loaded)
  show "clock afterSlider = 0"
    by (simp add: a i recordHistoryWithDebounce_def clearTimeout_def Let_def reset_loaded
        split: option.splits)
qed

lemma spread_onlyTransforms:
  "spread (closure s) (onlyTransforms t) = (displayed s)\<lparr>e_transforms := t\<rparr>"
  by (simp add: spread_def closure_def onlyTransforms_def displayed_def)

lemma quarterTurn_computed:
  "INITIAL_TRANSFORMS\<lparr>t_rotate := remainder (fl (t_rotate INITIAL_TRANSFORMS + 90)) 360\<rparr>
     = quarterTurn"
  by (simp add: INITIAL_TRANSFORMS_def quarterTurn_def fl_Ints remainder_def)

lemma stale_run:
  "last (history afterRotate)
     = INITIAL_EDIT_STATE\<lparr>e_adjustments := brighter, e_transforms := quarterTurn\<rparr>"
  "history afterRotate
     = [INITIAL_EDIT_STATE,
        INITIAL_EDIT_STATE\<lparr>e_adjustments := brighter, e_transforms := quarterTurn\<rparr>]"
  "displayed afterRotate
     = INITIAL_EDIT_STATE\<lparr>e_adjustments := brighter, e_transforms := quarterTurn\<rparr>"
  "history afterTimer
     = [INITIAL_EDIT_STATE, INITIAL_EDIT_STATE\<lparr>e_adjustments := brighter\<rparr>]"
  "historyIndex afterTimer = 1"
  "displayed afterTimer = INITIAL_EDIT_STATE\<lparr>e_adjustments := brighter\<rparr>"
proof -
  let ?c = "closureOf INITIAL_EDIT_STATE [INITIAL_EDIT_STATE] 0"
  let ?R = "INITIAL_EDIT_STATE\<lparr>e_adjustments := brighter, e_transforms := quarterTurn\<rparr>"
  let ?A = "INITIAL_EDIT_STATE\<lparr>e_adjustments := brighter\<rparr>"
  note p = afterSlider_fields(4)
  obtain tm where tm: "timers afterSlider = [tm]" "due tm = 400" "timer_env tm = ?c"
      "timer_arg tm = onlyAdjustments brighter"
    using p afterSlider_fields(5) by (auto simp: pendingOnly_def split: list.splits)
  define u where "u = advance 100 afterSlider"
  have u: "u = afterSlider\<lparr>clock := 100\<rparr>"
    using advance_quiet [OF p, of 100] by (simp add: u_def afterSlider_fields)
  have uf: "history u = [INITIAL_EDIT_STATE]" "historyIndex u = 0" "displayed u = ?A"
    "timers u = [tm]" "clock u = 100"
    by (simp_all add: u afterSlider_fields tm)
  have tr: "transforms u = INITIAL_TRANSFORMS"
    using uf(3) by (metis EditState.select_convs(2) EditState.update_convs(1)
        EditState.surjective displayed_def INITIAL_EDIT_STATE_def)
  define v where "v = rotateRightClick u"
  have v: "v = (recordHistory (onlyTransforms quarterTurn) u)\<lparr>transforms := quarterTurn\<rparr>"
    by (simp add: v_def rotateRightClick_def Let_def tr quarterTurn_computed)
  have vh: "history v = [INITIAL_EDIT_STATE, ?R]" "historyIndex v = 1"
    by (simp_all add: v recordHistory_history recordHistory_index uf slice0_def
        spread_onlyTransforms)
  have vt: "timers v = [tm]" "clock v = 100"
    by (simp_all add: v recordHistory_def recordHistoryIn_def Let_def uf)
  have ar: "afterRotate = afterRender u v"
    by (simp add: afterRotate_def rotateRightEvent_def u_def v_def)
  show h2: "history afterRotate = [INITIAL_EDIT_STATE, ?R]"
    by (simp add: ar vh)
  then show "last (history afterRotate) = ?R" by simp
  show "displayed afterRotate = ?R"
    unfolding ar by (subst displayed_afterRender_changed) (simp_all add: vh uf)
  define w where "w = afterRotate\<lparr>clock := 400, timers := []\<rparr>"
  have wf: "history w = [INITIAL_EDIT_STATE, ?R]"
    by (simp add: w_def h2)
  have at: "afterTimer = afterRender w (recordHistoryIn ?c (onlyAdjustments brighter) w)"
    by (simp add: afterTimer_def advance_def Let_def ar vt tm fireTimer_def w_def)
  have sp: "spread ?c (onlyAdjustments brighter) = ?A"
    by (simp add: spread_def closureOf_def onlyAdjustments_def INITIAL_EDIT_STATE_def)
  have fh: "history (recordHistoryIn ?c (onlyAdjustments brighter) w) = [INITIAL_EDIT_STATE, ?A]"
    "historyIndex (recordHistoryIn ?c (onlyAdjustments brighter) w) = 1"
    by (simp_all add: recordHistoryIn_def Let_def sp) (simp_all add: closureOf_def slice0_def)
  show "history afterTimer = [INITIAL_EDIT_STATE, ?A]" "historyIndex afterTimer = 1"
    by (simp_all add: at fh)
  have ne: "?A \<noteq> ?R"
  proof
    assume "?A = ?R"
    then have "e_transforms ?A = e_transforms ?R" by simp
    then show False
      by (simp add: INITIAL_EDIT_STATE_def quarterTurn_def INITIAL_TRANSFORMS_def)
  qed
  show "displayed afterTimer = ?A"
    unfolding at by (subst displayed_afterRender_changed) (simp_all add: fh wf ne)
qed

text \<open>
  C2. The history invariant requires that after N commits and M undos the edit state on
  display is the one committed at step N - M. The commit that the debounce timer makes
  runs the \<open>recordHistory\<close> that was captured when the timer was scheduled, with the
  history and the index of that render. On the loaded photo the brightness slider is
  set to 150, the rotate-right button is clicked 100 ms later (commit 1) and the timer
  fires 300 ms after that (commit 2). The timer's commit is built on the history
  captured before the rotation, so it replaces the rotation's snapshot instead of
  following it: the rotation is gone from the display, and after one undo the display is
  the initial state, not the state that commit 1 committed.
\<close>

theorem stale_timer_loses_commit:
  "last (history afterRotate)
     = INITIAL_EDIT_STATE\<lparr>e_adjustments := brighter, e_transforms := quarterTurn\<rparr>
   \<and> history afterTimer
       = [INITIAL_EDIT_STATE, INITIAL_EDIT_STATE\<lparr>e_adjustments := brighter\<rparr>]
   \<and> displayed afterTimer = INITIAL_EDIT_STATE\<lparr>e_adjustments := brighter\<rparr>
   \<and> displayed (undoEvent afterTimer) = INITIAL_EDIT_STATE
   \<and> displayed (undoEvent afterTimer) \<noteq> last (history afterRotate)"
proof -
  have u: "displayed (undoEvent afterTimer) = history afterTimer ! nat (historyIndex afterTimer - 1)"
    by (rule undoEvent_step) (simp_all add: stale_run)
  have i: "displayed (undoEvent afterTimer) = INITIAL_EDIT_STATE"
    by (simp add: u stale_run)
  have "INITIAL_EDIT_STATE
      \<noteq> INITIAL_EDIT_STATE\<lparr>e_adjustments := brighter, e_transforms := quarterTurn\<rparr>"
  proof
    assume a: "INITIAL_EDIT_STATE
      = INITIAL_EDIT_STATE\<lparr>e_adjustments := brighter, e_transforms := quarterTurn\<rparr>"
    have "e_transforms INITIAL_EDIT_STATE = quarterTurn"
      by (subst a) simp
    then show False
      by (simp add: INITIAL_EDIT_STATE_def quarterTurn_def INITIAL_TRANSFORMS_def)
  qed
  then show ?thesis
    by (simp add: i stale_run)
qed

section \<open>Pointer-up\<close>

lemma spread_closure_displayed:
  "spread (closure s) (onlyPaths (paths s)) = displayed s"
  "spread (closure s) (onlyShapes (shapes s)) = displayed s"
  "spread (closure s) (textsAndShapes (texts s) (shapes s)) = displayed s"
  by (simp_all add: spread_def closure_def displayed_def onlyPaths_def onlyShapes_def
      textsAndShapes_def)

lemma recordHistory_changes:
  "(history (recordHistory p s), historyIndex (recordHistory p s)) \<noteq> (history s, historyIndex s)"
proof
  assume e: "(history (recordHistory p s), historyIndex (recordHistory p s)) = (history s, historyIndex s)"
  then have h: "history (recordHistory p s) = history s"
    and i: "historyIndex (recordHistory p s) = historyIndex s" by simp_all
  have "length (slice0 (history s) (historyIndex s + 1)) + 1 = length (history s)"
    using h by (metis recordHistory_history length_append_singleton Suc_eq_plus1)
  moreover have "historyIndex s = int (length (history s)) - 1"
    using i h recordHistory_index [of p s] by simp
  ultimately show False by (simp add: slice0_def)
qed

lemma handleMouseUpOrLeave_history:
  "history (handleMouseUpOrLeave s) =
     (if isDrawing s \<and> (activeTool s = Some Draw \<or> activeTool s = Some Shape
          \<or> (activeTool s = Some Select \<and> isDragging s))
      then history (recordHistory (onlyPaths (paths s)) s) else history s)"
  "historyIndex (handleMouseUpOrLeave s) =
     (if isDrawing s \<and> (activeTool s = Some Draw \<or> activeTool s = Some Shape
          \<or> (activeTool s = Some Select \<and> isDragging s))
      then historyIndex (recordHistory (onlyPaths (paths s)) s) else historyIndex s)"
  by (auto simp: handleMouseUpOrLeave_def Let_def recordHistory_history recordHistory_index
      spread_closure_displayed)

text \<open>
  C6 (as amended). Pointer-up or pointer-leave commits the edit state on display as
  exactly one history entry (appended after the entries up to the current index, the
  index moving onto it) if and only if an interaction is open and the active tool is
  draw, shape, or select with the drag flag set, which pointer-down sets when it hits a
  text or shape element, whether or not the element has moved since. In every other case
  the history and the index are unchanged.
\<close>

theorem pointer_up_commits:
  "(if isDrawing s \<and> (activeTool s = Some Draw \<or> activeTool s = Some Shape
        \<or> (activeTool s = Some Select \<and> isDragging s))
    then history (handleMouseUpOrLeave s)
           = slice0 (history s) (historyIndex s + 1) @ [displayed s]
       \<and> historyIndex (handleMouseUpOrLeave s)
           = int (length (slice0 (history s) (historyIndex s + 1)))
       \<and> (history (handleMouseUpOrLeave s), historyIndex (handleMouseUpOrLeave s))
           \<noteq> (history s, historyIndex s)
    else history (handleMouseUpOrLeave s) = history s
       \<and> historyIndex (handleMouseUpOrLeave s) = historyIndex s)"
proof (cases "isDrawing s \<and> (activeTool s = Some Draw \<or> activeTool s = Some Shape
        \<or> (activeTool s = Some Select \<and> isDragging s))")
  case True
  have "history (handleMouseUpOrLeave s) = history (recordHistory (onlyPaths (paths s)) s)"
    "historyIndex (handleMouseUpOrLeave s) = historyIndex (recordHistory (onlyPaths (paths s)) s)"
    by (simp_all only: handleMouseUpOrLeave_history if_P [OF True])
  then show ?thesis
    using recordHistory_changes [of "onlyPaths (paths s)" s]
    by (simp only: if_P [OF True] recordHistory_history recordHistory_index
        spread_closure_displayed) simp
next
  case False
  show ?thesis
    by (simp only: handleMouseUpOrLeave_history if_not_P [OF False] simp_thms)
qed

lemma withElements_fields:
  "texts withElements = [caption]" "shapes withElements = [box]"
  "activeTool withElements = Some Select"
  "history withElements = [INITIAL_EDIT_STATE\<lparr>e_texts := [caption], e_shapes := [box]\<rparr>]"
  "historyIndex withElements = 0" "paths withElements = []"
  "adjustments withElements = INITIAL_ADJUSTMENTS" "transforms withElements = INITIAL_TRANSFORMS"
  "originalImage withElements = Some photo" "isDragging withElements = False"
  by (simp_all add: withElements_def loaded_def resetEdits_def initialStudio_def
      INITIAL_EDIT_STATE_def)

lemma fl_caption_width: "fl (40 * literal_0_6) = 24"
  by (subst fl_eval [where e = 4]) (simp_all add: literal_0_6_def rne_def Let_def)

lemma textHit_click: "textHit clickPoint caption"
  by (simp add: textHit_def clickPoint_def caption_def fl_Ints fl_caption_width)

lemma clicked_eq:
  "clicked = withElements\<lparr>startPoint := Some clickPoint, isDrawing := True,
      selectedElement := Some \<lparr>sel_type = text_element, sel_id = ''1''\<rparr>,
      isDragging := True, dragStartPoint := \<lparr>pt_x = 2, pt_y = 2\<rparr>\<rparr>"
  by (simp add: clicked_def handleMouseDown_def withElements_fields textHit_click Let_def)
     (simp add: caption_def clickPoint_def fl_Ints)

theorem pointer_up_commits_witness:
  "history (handleMouseUpOrLeave clicked)
     = slice0 (history clicked) (historyIndex clicked + 1) @ [displayed clicked]
   \<and> historyIndex (handleMouseUpOrLeave clicked) = 1"
proof -
  have f: "isDrawing clicked" "isDragging clicked" "activeTool clicked = Some Select"
    "historyIndex clicked = 0" "history clicked = history withElements"
    by (simp_all add: clicked_eq withElements_fields)
  show ?thesis
    using pointer_up_commits [of clicked] by (simp add: f withElements_fields slice0_def)
qed

text \<open>
  C6 as stated fails in the direction from the commit to the moved element: pressing the
  select tool on the caption and releasing it without a move leaves the texts and shapes
  as they were, yet the history grows from one entry to two equal entries.
\<close>

theorem select_click_commits_counterexample:
  "activeTool clicked = Some Select
   \<and> texts (handleMouseUpOrLeave clicked) = texts withElements
   \<and> shapes (handleMouseUpOrLeave clicked) = shapes withElements
   \<and> history withElements = [INITIAL_EDIT_STATE\<lparr>e_texts := [caption], e_shapes := [box]\<rparr>]
   \<and> history (handleMouseUpOrLeave clicked)
       = [INITIAL_EDIT_STATE\<lparr>e_texts := [caption], e_shapes := [box]\<rparr>,
          INITIAL_EDIT_STATE\<lparr>e_texts := [caption], e_shapes := [box]\<rparr>]"
proof -
  have d: "displayed clicked = INITIAL_EDIT_STATE\<lparr>e_texts := [caption], e_shapes := [box]\<rparr>"
    by (simp add: clicked_eq displayed_def withElements_fields INITIAL_EDIT_STATE_def)
  have f: "isDrawing clicked" "isDragging clicked" "activeTool clicked = Some Select"
    "historyIndex clicked = 0" "history clicked = history withElements"
    "texts clicked = texts withElements" "shapes clicked = shapes withElements"
    by (simp_all add: clicked_eq withElements_fields)
  have "history (handleMouseUpOrLeave clicked)
      = slice0 (history clicked) (historyIndex clicked + 1) @ [displayed clicked]"
    using f by (simp add: handleMouseUpOrLeave_history recordHistory_history
        spread_closure_displayed)
  moreover have "texts (handleMouseUpOrLeave clicked) = texts clicked"
    "shapes (handleMouseUpOrLeave clicked) = shapes clicked"
    by (simp_all add: handleMouseUpOrLeave_def Let_def recordHistory_def recordHistoryIn_def)
  ultimately show ?thesis
    using f d by (simp add: withElements_fields slice0_def)
qed

section \<open>Paths of fewer than two points\<close>

lemma drawPath_short: "length (path_points p) < 2 \<Longrightarrow> drawPath p = []"
  by (simp add: drawPath_def)

lemma render_paths_cong:
  "concat (map drawPath ps) = concat (map drawPath qs) \<Longrightarrow>
   render (s\<lparr>paths := ps\<rparr>) = render (s\<lparr>paths := qs\<rparr>)"
  by (simp add: render_def drawSelection_def Let_def split: option.splits)

text \<open>
  C10. A path of fewer than two points makes the path renderer issue no drawing call, so
  the renderer's output with such a path anywhere in the path list is its output with
  the path removed. With the draw tool, pointer-down followed by pointer-up with no move
  in between leaves a new path of one point in the path list and in the history entry
  that pointer-up appends, and the renderer's output is the same as without that path.
\<close>

theorem short_path_draws_nothing:
  "(length (path_points p) < 2 \<longrightarrow>
      drawPath p = []
      \<and> render (s\<lparr>paths := ps1 @ p # ps2\<rparr>) = render (s\<lparr>paths := ps1 @ ps2\<rparr>))
   \<and> (activeTool s = Some Draw \<longrightarrow>
      paths (handleMouseUpOrLeave (handleMouseDown (Some coords) now s))
        = paths s @ [\<lparr>path_points = [coords], path_color = brushColor s,
                      path_size = brushSize s, path_id = now\<rparr>]
      \<and> history (handleMouseUpOrLeave (handleMouseDown (Some coords) now s))
        = slice0 (history s) (historyIndex s + 1)
          @ [(displayed s)\<lparr>e_paths := paths s @ [\<lparr>path_points = [coords],
                path_color = brushColor s, path_size = brushSize s, path_id = now\<rparr>]\<rparr>]
      \<and> render (handleMouseUpOrLeave (handleMouseDown (Some coords) now s))
        = render ((handleMouseUpOrLeave (handleMouseDown (Some coords) now s))\<lparr>paths := paths s\<rparr>))"
proof (intro conjI impI)
  assume "length (path_points p) < 2"
  then show "drawPath p = []" by (rule drawPath_short)
  then show "render (s\<lparr>paths := ps1 @ p # ps2\<rparr>) = render (s\<lparr>paths := ps1 @ ps2\<rparr>)"
    by (intro render_paths_cong) simp
next
  let ?np = "\<lparr>path_points = [coords], path_color = brushColor s,
                      path_size = brushSize s, path_id = now\<rparr>"
  let ?d = "handleMouseDown (Some coords) now s"
  assume t: "activeTool s = Some Draw"
  have d: "?d = s\<lparr>startPoint := Some coords, isDrawing := True, selectedElement := None,
      paths := paths s @ [?np]\<rparr>"
    using t by (simp add: handleMouseDown_def Let_def)
  have u: "handleMouseUpOrLeave ?d
      = (recordHistory (onlyPaths (paths ?d)) ?d)\<lparr>isDrawing := False, isDragging := False,
          startPoint := None\<rparr>"
    using t by (simp add: handleMouseUpOrLeave_def d)
  show p: "paths (handleMouseUpOrLeave ?d) = paths s @ [?np]"
    by (simp add: u recordHistory_def recordHistoryIn_def Let_def) (simp add: d)
  have "displayed ?d = (displayed s)\<lparr>e_paths := paths s @ [?np]\<rparr>"
    by (simp add: d displayed_def)
  moreover have "history ?d = history s" "historyIndex ?d = historyIndex s"
    by (simp_all add: d)
  ultimately show "history (handleMouseUpOrLeave ?d)
        = slice0 (history s) (historyIndex s + 1) @ [(displayed s)\<lparr>e_paths := paths s @ [?np]\<rparr>]"
    by (simp add: u recordHistory_history spread_closure_displayed)
  have "render ((handleMouseUpOrLeave ?d)\<lparr>paths := paths s @ [?np]\<rparr>)
      = render ((handleMouseUpOrLeave ?d)\<lparr>paths := paths s\<rparr>)"
    by (intro render_paths_cong) (simp add: drawPath_def)
  moreover have "(handleMouseUpOrLeave ?d)\<lparr>paths := paths s @ [?np]\<rparr> = handleMouseUpOrLeave ?d"
    using p by (metis Studio.surjective Studio.update_convs(6))
  ultimately show "render (handleMouseUpOrLeave ?d)
        = render ((handleMouseUpOrLeave ?d)\<lparr>paths := paths s\<rparr>)"
    by simp
qed

theorem short_path_draws_nothing_witness:
  "length (path_points dot) < 2 \<and> activeTool drawing = Some Draw
   \<and> drawPath dot = []
   \<and> render (drawing\<lparr>paths := [dot]\<rparr>) = render (drawing\<lparr>paths := []\<rparr>)
   \<and> paths (handleMouseUpOrLeave (handleMouseDown (Some clickPoint) ''7'' drawing)) = [dot]
   \<and> render (handleMouseUpOrLeave (handleMouseDown (Some clickPoint) ''7'' drawing))
       = render ((handleMouseUpOrLeave (handleMouseDown (Some clickPoint) ''7'' drawing))
           \<lparr>paths := []\<rparr>)"
proof -
  have h1: "length (path_points dot) < 2" by (simp add: dot_def)
  have h2: "activeTool drawing = Some Draw" by (simp add: drawing_def)
  have f: "paths drawing = []" "brushColor drawing = ''#ffffff''" "brushSize drawing = 5"
    by (simp_all add: drawing_def loaded_def resetEdits_def initialStudio_def
        INITIAL_EDIT_STATE_def)
  show ?thesis
    using h1 h2 short_path_draws_nothing [where p = dot and s = drawing and ?ps1.0 = "[]"
        and ?ps2.0 = "[]" and coords = clickPoint and now = "''7''"]
    by (simp add: f) (simp add: dot_def)
qed

section \<open>Canvas extent\<close>





lemma hd_render:
  "originalImage s = Some img \<Longrightarrow>
   hd (render s) = SetCanvasSize (fst (canvasSize (platform s) img (transforms s)))
                     (snd (canvasSize (platform s) img (transforms s)))"
  by (simp add: render_def Let_def)






text \<open>
  The landscape photo after a quarter turn: the cosine of \<open>Math.PI / 2\<close> is not 0 in
  doubles and the assigned width is a little above 100; the canvas is 100 by 200. Upright,
  it is 200 by 100.
\<close>

lemma wide_fields:
  "displayed wide = INITIAL_EDIT_STATE" "history wide = [INITIAL_EDIT_STATE]"
  "historyIndex wide = 0" "timers wide = []" "originalImage wide = Some landscape"
  "transforms wide = INITIAL_TRANSFORMS" "platform wide = browserMath" "cropRect wide = None"
  "historyTimeoutRef wide = None"
  by (simp_all add: wide_def displayed_resetEdits)
     (simp_all add: resetEdits_def initialStudio_def INITIAL_EDIT_STATE_def)

lemma browserMath_values:
  "math_cos browserMath 0 = 1" "math_sin browserMath 0 = 0"
  "math_cos browserMath (Math_PI / 2) = 4967757600021511 / 81129638414606681695789005144064"
  "math_sin browserMath (Math_PI / 2) = 1"
  by (simp_all add: browserMath_def Math_PI_def)

lemma quarter_radians: "fl (fl (t_rotate quarterTurn * Math_PI) / 180) = Math_PI / 2"
proof -
  have r: "t_rotate quarterTurn = 90" by (simp add: quarterTurn_def)
  have a: "fl (90 * Math_PI) = 4974073419394997 / 17592186044416"
    by (subst fl_eval [where e = 8]) (simp_all add: Math_PI_def rne_def Let_def)
  have b: "fl (4974073419394997 / 17592186044416 / 180) = 884279719003555 / 562949953421312"
    by (subst fl_eval [where e = 0]) (simp_all add: rne_def Let_def)
  show ?thesis unfolding r a b by (simp add: Math_PI_def)
qed

lemma quarter_width:
  "canvasWidth (fl (fl (200 * \<bar>4967757600021511 / 81129638414606681695789005144064\<bar>)
                    + fl (100 * \<bar>1\<bar>))) = 100"
proof -
  have a: "fl (200 * \<bar>4967757600021511 / 81129638414606681695789005144064\<bar>)
             = 7762121250033611 / 633825300114114700748351602688"
    by (subst fl_eval [where e = "- 47"]) (simp_all add: rne_def Let_def)
  have b: "fl (100 * \<bar>1\<bar>) = 100" by (simp add: fl_Ints)
  have c: "fl (7762121250033611 / 633825300114114700748351602688 + 100)
             = 7036874417766401 / 70368744177664"
    by (subst fl_eval [where e = 6]) (simp_all add: rne_def Let_def)
  show ?thesis unfolding a b c by (simp add: canvasWidth_def unsignedLong_def)
qed

lemma quarter_height:
  "canvasHeight (fl (fl (100 * \<bar>4967757600021511 / 81129638414606681695789005144064\<bar>)
                     + fl (200 * \<bar>1\<bar>))) = 200"
proof -
  have a: "fl (100 * \<bar>4967757600021511 / 81129638414606681695789005144064\<bar>)
             = 7762121250033611 / 1267650600228229401496703205376"
    by (subst fl_eval [where e = "- 48"]) (simp_all add: rne_def Let_def)
  have b: "fl (200 * \<bar>1\<bar>) = 200" by (simp add: fl_Ints)
  have c: "fl (7762121250033611 / 1267650600228229401496703205376 + 200) = 200"
    by (subst fl_eval [where e = 7]) (simp_all add: rne_def Let_def)
  show ?thesis unfolding a b c by (simp add: canvasHeight_def unsignedLong_def)
qed



section \<open>Dragging a shape\<close>

lemma dragShape_props:
  "shape_x1 (dragShape c st i sh)
     = (if shape_id sh = i
        then fl (shape_x1 sh + fl (fl (pt_x c - pt_x st) - shape_x1 sh)) else shape_x1 sh)"
  "shape_x2 (dragShape c st i sh)
     = (if shape_id sh = i
        then fl (shape_x2 sh + fl (fl (pt_x c - pt_x st) - shape_x1 sh)) else shape_x2 sh)"
  "shape_y1 (dragShape c st i sh)
     = (if shape_id sh = i
        then fl (shape_y1 sh + fl (fl (pt_y c - pt_y st) - shape_y1 sh)) else shape_y1 sh)"
  "shape_y2 (dragShape c st i sh)
     = (if shape_id sh = i
        then fl (shape_y2 sh + fl (fl (pt_y c - pt_y st) - shape_y1 sh)) else shape_y2 sh)"
  "shape_type (dragShape c st i sh) = shape_type sh"
  "shape_color (dragShape c st i sh) = shape_color sh"
  "shape_strokeWidth (dragShape c st i sh) = shape_strokeWidth sh"
  "shape_id (dragShape c st i sh) = shape_id sh"
  "shape_id sh \<noteq> i \<Longrightarrow> dragShape c st i sh = sh"
  by (simp_all add: dragShape_def Let_def)

text \<open>
  C9. A pointer-move of a select-drag whose selection is the shape with id \<open>i\<close> succeeds
  and changes nothing but the shape list. Position by position, a shape with id \<open>i\<close> has
  the same delta added to both control points: \<open>dx = (coords.x - dragStartPoint.x) - x1\<close>
  and \<open>dy\<close> likewise, each subtraction rounded to a double, and the new coordinates are
  the rounded sums \<open>x1 + dx\<close>, \<open>x2 + dx\<close>, \<open>y1 + dy\<close>, \<open>y2 + dy\<close>. When the two
  sums of an axis are exact, the difference of the control points on that axis is
  unchanged. The shape's type, color, stroke width and id are unchanged, and every other
  shape is unchanged.
\<close>

theorem drag_translates_shape:
  assumes "isDrawing s" and "activeTool s = Some Select" and "isDragging s"
    and "selectedElement s = Some \<lparr>sel_type = shape_element, sel_id = i\<rparr>"
  shows "case handleMouseMove (Some coords) s of
           Inl err \<Rightarrow> False
         | Inr s' \<Rightarrow>
             s' = s\<lparr>shapes := shapes s'\<rparr>
             \<and> list_all2
                 (\<lambda>a b. if shape_id a = i
                        then shape_x1 b
                               = fl (shape_x1 a
                                     + fl (fl (pt_x coords - pt_x (dragStartPoint s)) - shape_x1 a))
                           \<and> shape_x2 b
                               = fl (shape_x2 a
                                     + fl (fl (pt_x coords - pt_x (dragStartPoint s)) - shape_x1 a))
                           \<and> shape_y1 b
                               = fl (shape_y1 a
                                     + fl (fl (pt_y coords - pt_y (dragStartPoint s)) - shape_y1 a))
                           \<and> shape_y2 b
                               = fl (shape_y2 a
                                     + fl (fl (pt_y coords - pt_y (dragStartPoint s)) - shape_y1 a))
                           \<and> (shape_x1 b
                                = shape_x1 a
                                  + fl (fl (pt_x coords - pt_x (dragStartPoint s)) - shape_x1 a)
                              \<and> shape_x2 b
                                = shape_x2 a
                                  + fl (fl (pt_x coords - pt_x (dragStartPoint s)) - shape_x1 a)
                              \<longrightarrow> shape_x2 b - shape_x1 b = shape_x2 a - shape_x1 a)
                           \<and> (shape_y1 b
                                = shape_y1 a
                                  + fl (fl (pt_y coords - pt_y (dragStartPoint s)) - shape_y1 a)
                              \<and> shape_y2 b
                                = shape_y2 a
                                  + fl (fl (pt_y coords - pt_y (dragStartPoint s)) - shape_y1 a)
                              \<longrightarrow> shape_y2 b - shape_y1 b = shape_y2 a - shape_y1 a)
                           \<and> shape_type b = shape_type a \<and> shape_color b = shape_color a
                           \<and> shape_strokeWidth b = shape_strokeWidth a \<and> shape_id b = shape_id a
                        else b = a)
                 (shapes s) (shapes s')"
proof -
  have m: "handleMouseMove (Some coords) s
      = Inr (s\<lparr>shapes := map (dragShape coords (dragStartPoint s) i) (shapes s)\<rparr>)"
    using assms by (simp add: handleMouseMove_def)
  show ?thesis
    unfolding m
    by (simp add: list_all2_map2 list_all2_same dragShape_props)
qed

text \<open>
  The box from (60, 60) to (40, 80), grabbed with the offset (-10, 10), is dragged to the
  pointer position (90, 5): it moves to (100, -5) and (80, 15), all sums exact.
\<close>

theorem drag_translates_shape_witness:
  "isDrawing dragging \<and> activeTool dragging = Some Select \<and> isDragging dragging
   \<and> selectedElement dragging = Some \<lparr>sel_type = shape_element, sel_id = ''2''\<rparr>
   \<and> dragStartPoint dragging = \<lparr>pt_x = - 10, pt_y = 10\<rparr>
   \<and> shapes dragging
       = [box\<lparr>shape_x1 := 60, shape_y1 := 60, shape_x2 := 40, shape_y2 := 80\<rparr>]
   \<and> handleMouseMove (Some farPoint) dragging
       = Inr (dragging\<lparr>shapes := [box\<lparr>shape_x1 := 100, shape_y1 := - 5,
                                        shape_x2 := 80, shape_y2 := 15\<rparr>]\<rparr>)
   \<and> (case handleMouseMove (Some farPoint) dragging of
         Inl err \<Rightarrow> False
       | Inr s' \<Rightarrow>
           s' = dragging\<lparr>shapes := shapes s'\<rparr>
           \<and> list_all2
               (\<lambda>a b. if shape_id a = ''2''
                      then shape_x1 b
                             = fl (shape_x1 a
                                   + fl (fl (pt_x farPoint - pt_x (dragStartPoint dragging))
                                         - shape_x1 a))
                         \<and> shape_x2 b
                             = fl (shape_x2 a
                                   + fl (fl (pt_x farPoint - pt_x (dragStartPoint dragging))
                                         - shape_x1 a))
                         \<and> shape_y1 b
                             = fl (shape_y1 a
                                   + fl (fl (pt_y farPoint - pt_y (dragStartPoint dragging))
                                         - shape_y1 a))
                         \<and> shape_y2 b
                             = fl (shape_y2 a
                                   + fl (fl (pt_y farPoint - pt_y (dragStartPoint dragging))
                                         - shape_y1 a))
                         \<and> (shape_x1 b
                              = shape_x1 a
                                + fl (fl (pt_x farPoint - pt_x (dragStartPoint dragging))
                                      - shape_x1 a)
                            \<and> shape_x2 b
                              = shape_x2 a
                                + fl (fl (pt_x farPoint - pt_x (dragStartPoint dragging))
                                      - shape_x1 a)
                            \<longrightarrow> shape_x2 b - shape_x1 b = shape_x2 a - shape_x1 a)
                         \<and> (shape_y1 b
                              = shape_y1 a
                                + fl (fl (pt_y farPoint - pt_y (dragStartPoint dragging))
                                      - shape_y1 a)
                            \<and> shape_y2 b
                              = shape_y2 a
                                + fl (fl (pt_y farPoint - pt_y (dragStartPoint dragging))
                                      - shape_y1 a)
                            \<longrightarrow> shape_y2 b - shape_y1 b = shape_y2 a - shape_y1 a)
                         \<and> shape_type b = shape_type a \<and> shape_color b = shape_color a
                         \<and> shape_strokeWidth b = shape_strokeWidth a \<and> shape_id b = shape_id a
                      else b = a)
               (shapes dragging) (shapes s'))"
proof -
  have h: "isDrawing dragging" "activeTool dragging = Some Select" "isDragging dragging"
    "selectedElement dragging = Some \<lparr>sel_type = shape_element, sel_id = ''2''\<rparr>"
    by (simp_all add: dragging_def withElements_fields)
  have f: "shapes dragging = [box]" "dragStartPoint dragging = \<lparr>pt_x = - 10, pt_y = 10\<rparr>"
    by (simp_all add: dragging_def withElements_fields)
  have b: "shapes dragging
       = [box\<lparr>shape_x1 := 60, shape_y1 := 60, shape_x2 := 40, shape_y2 := 80\<rparr>]"
    by (simp add: f box_def)
  have e: "handleMouseMove (Some farPoint) dragging
       = Inr (dragging\<lparr>shapes := [box\<lparr>shape_x1 := 100, shape_y1 := - 5,
                                        shape_x2 := 80, shape_y2 := 15\<rparr>]\<rparr>)"
    using h by (simp add: handleMouseMove_def f dragShape_def farPoint_def box_def fl_Ints)
  show ?thesis
    using h f(2) b e drag_translates_shape [OF h, of farPoint]
    by - (intro conjI, assumption+)
qed

text \<open>
  The rectangle from (0.1, 0.1) to (0.2, 0.2) is pressed on its first corner and dragged
  to (0.2, 0.2): the first corner lands on 0.2, the second on 0.30000000000000004, the
  double nearest to the sum of the doubles 0.2 and 0.1. The difference of the control
  points was 0.1 and is now larger.
\<close>

lemma fl_tenths:
  "fl (3602879701896397 / 18014398509481984) = 3602879701896397 / 18014398509481984"
  "fl (3602879701896397 / 36028797018963968) = 3602879701896397 / 36028797018963968"
  "fl (10808639105689191 / 36028797018963968) = 1351079888211149 / 4503599627370496"
    apply (subst fl_eval [where e = "- 3"]; simp add: rne_def Let_def)
   apply (subst fl_eval [where e = "- 4"]; simp add: rne_def Let_def)
  apply (subst fl_eval [where e = "- 2"]; simp add: rne_def Let_def)
  done

lemma withSliver_fields:
  "isDrawing withSliver = False" "activeTool withSliver = Some Select" "texts withSliver = []"
  "shapes withSliver = [sliver]"
  by (simp_all add: withSliver_def loaded_def resetEdits_def initialStudio_def
      INITIAL_EDIT_STATE_def)

lemma sliverPressed_eq:
  "sliverPressed
     = withSliver\<lparr>startPoint := Some pressPoint, isDrawing := True,
         selectedElement := Some \<lparr>sel_type = shape_element, sel_id = ''5''\<rparr>,
         isDragging := True, dragStartPoint := \<lparr>pt_x = 0, pt_y = 0\<rparr>\<rparr>"
  by (simp add: sliverPressed_def handleMouseDown_def Let_def withSliver_fields shapeHit_def
      pressPoint_def sliver_def)

theorem drag_rounds_counterexample:
  "handleMouseMove (Some movePoint) sliverPressed
     = Inr (sliverPressed
         \<lparr>shapes := [sliver\<lparr>shape_x1 := 3602879701896397 / 18014398509481984,
                            shape_y1 := 3602879701896397 / 18014398509481984,
                            shape_x2 := 1351079888211149 / 4503599627370496,
                            shape_y2 := 1351079888211149 / 4503599627370496\<rparr>]\<rparr>)
   \<and> shape_x2 sliver - shape_x1 sliver = 3602879701896397 / 36028797018963968
   \<and> (1351079888211149 / 4503599627370496 :: real) - 3602879701896397 / 18014398509481984
       \<noteq> shape_x2 sliver - shape_x1 sliver"
proof -
  have "handleMouseMove (Some movePoint) sliverPressed
     = Inr (sliverPressed
         \<lparr>shapes := [sliver\<lparr>shape_x1 := 3602879701896397 / 18014398509481984,
                            shape_y1 := 3602879701896397 / 18014398509481984,
                            shape_x2 := 1351079888211149 / 4503599627370496,
                            shape_y2 := 1351079888211149 / 4503599627370496\<rparr>]\<rparr>)"
    unfolding sliverPressed_eq
    by (simp add: handleMouseMove_def withSliver_fields dragShape_def Let_def movePoint_def
        sliver_def fl_tenths)
  then show ?thesis by (simp add: sliver_def)
qed

section \<open>Hit-testing\<close>

lemma find_first:
  "(\<forall>u\<in>set ys. \<not> P u) \<Longrightarrow> P x \<Longrightarrow> find P (ys @ x # zs) = Some x"
  by (induction ys) auto

lemma find_none: "(\<forall>u\<in>set xs. \<not> P u) \<Longrightarrow> find P xs = None"
  by (simp add: find_None_iff)

lemma find_some_ex: "x \<in> set xs \<Longrightarrow> P x \<Longrightarrow> \<exists>y. find P xs = Some y"
  by (cases "find P xs") (auto simp: find_None_iff)

lemma handleMouseDown_select:
  assumes "activeTool s = Some Select"
  shows "handleMouseDown (Some c) now s =
     (case find (textHit c) (texts s) of
        Some t \<Rightarrow>
          s\<lparr>startPoint := Some c, isDrawing := True,
            selectedElement := Some \<lparr>sel_type = text_element, sel_id = text_id t\<rparr>,
            isDragging := True,
            dragStartPoint := \<lparr>pt_x = fl (pt_x c - text_x t), pt_y = fl (pt_y c - text_y t)\<rparr>\<rparr>
      | None \<Rightarrow>
          (case find (shapeHit c) (shapes s) of
             Some sh \<Rightarrow>
               s\<lparr>startPoint := Some c, isDrawing := True,
                 selectedElement := Some \<lparr>sel_type = shape_element, sel_id = shape_id sh\<rparr>,
                 isDragging := True,
                 dragStartPoint := \<lparr>pt_x = fl (pt_x c - shape_x1 sh), pt_y = fl (pt_y c - shape_y1 sh)\<rparr>\<rparr>
           | None \<Rightarrow> s\<lparr>startPoint := Some c, isDrawing := True, selectedElement := None\<rparr>))"
  using assms by (simp add: handleMouseDown_def Let_def split: option.splits)

lemma select_hit_parts:
  assumes "activeTool s = Some Select"
  shows "textHit c t =
           (text_x t \<le> pt_x c \<and> pt_x c \<le> fl (text_x t + fl (fl (text_size t * real (length (text_text t))) * literal_0_6))
            \<and> text_y t \<le> pt_y c \<and> pt_y c \<le> fl (text_y t + text_size t))"
    and "shapeHit c sh =
           (min (shape_x1 sh) (shape_x2 sh) \<le> pt_x c \<and> pt_x c \<le> max (shape_x1 sh) (shape_x2 sh)
            \<and> min (shape_y1 sh) (shape_y2 sh) \<le> pt_y c \<and> pt_y c \<le> max (shape_y1 sh) (shape_y2 sh))"
    and "texts s = ts1 @ t # ts2 \<and> textHit c t \<and> (\<forall>u\<in>set ts1. \<not> textHit c u) \<longrightarrow>
           selectedElement (handleMouseDown (Some c) now s)
             = Some \<lparr>sel_type = text_element, sel_id = text_id t\<rparr>
           \<and> isDragging (handleMouseDown (Some c) now s)
           \<and> dragStartPoint (handleMouseDown (Some c) now s)
             = \<lparr>pt_x = fl (pt_x c - text_x t), pt_y = fl (pt_y c - text_y t)\<rparr>"
    and "(\<forall>u\<in>set (texts s). \<not> textHit c u) \<and> shapes s = ss1 @ sh # ss2 \<and> shapeHit c sh
           \<and> (\<forall>u\<in>set ss1. \<not> shapeHit c u) \<longrightarrow>
           selectedElement (handleMouseDown (Some c) now s)
             = Some \<lparr>sel_type = shape_element, sel_id = shape_id sh\<rparr>
           \<and> isDragging (handleMouseDown (Some c) now s)
           \<and> dragStartPoint (handleMouseDown (Some c) now s)
             = \<lparr>pt_x = fl (pt_x c - shape_x1 sh), pt_y = fl (pt_y c - shape_y1 sh)\<rparr>"
    and "sh \<in> set (shapes s)
           \<and> min (shape_x1 sh) (shape_x2 sh) < pt_x c \<and> pt_x c < max (shape_x1 sh) (shape_x2 sh)
           \<and> min (shape_y1 sh) (shape_y2 sh) < pt_y c \<and> pt_y c < max (shape_y1 sh) (shape_y2 sh) \<longrightarrow>
           selectedElement (handleMouseDown (Some c) now s) \<noteq> None
           \<and> isDragging (handleMouseDown (Some c) now s)"
    and "(\<forall>u\<in>set (texts s).
             pt_x c < text_x u \<or> fl (text_x u + fl (fl (text_size u * real (length (text_text u))) * literal_0_6)) < pt_x c
             \<or> pt_y c < text_y u \<or> fl (text_y u + text_size u) < pt_y c)
           \<and> (\<forall>u\<in>set (shapes s).
             pt_x c < min (shape_x1 u) (shape_x2 u) \<or> max (shape_x1 u) (shape_x2 u) < pt_x c
             \<or> pt_y c < min (shape_y1 u) (shape_y2 u) \<or> max (shape_y1 u) (shape_y2 u) < pt_y c) \<longrightarrow>
           selectedElement (handleMouseDown (Some c) now s) = None
           \<and> isDragging (handleMouseDown (Some c) now s) = isDragging s"
proof -
  note d = handleMouseDown_select [OF assms, of c now]
  show "textHit c t =
           (text_x t \<le> pt_x c \<and> pt_x c \<le> fl (text_x t + fl (fl (text_size t * real (length (text_text t))) * literal_0_6))
            \<and> text_y t \<le> pt_y c \<and> pt_y c \<le> fl (text_y t + text_size t))"
    by (simp add: textHit_def)
  show "shapeHit c sh =
           (min (shape_x1 sh) (shape_x2 sh) \<le> pt_x c \<and> pt_x c \<le> max (shape_x1 sh) (shape_x2 sh)
            \<and> min (shape_y1 sh) (shape_y2 sh) \<le> pt_y c \<and> pt_y c \<le> max (shape_y1 sh) (shape_y2 sh))"
    by (simp add: shapeHit_def)
  show "texts s = ts1 @ t # ts2 \<and> textHit c t \<and> (\<forall>u\<in>set ts1. \<not> textHit c u) \<longrightarrow>
           selectedElement (handleMouseDown (Some c) now s)
             = Some \<lparr>sel_type = text_element, sel_id = text_id t\<rparr>
           \<and> isDragging (handleMouseDown (Some c) now s)
           \<and> dragStartPoint (handleMouseDown (Some c) now s)
             = \<lparr>pt_x = fl (pt_x c - text_x t), pt_y = fl (pt_y c - text_y t)\<rparr>"
  proof
    assume a: "texts s = ts1 @ t # ts2 \<and> textHit c t \<and> (\<forall>u\<in>set ts1. \<not> textHit c u)"
    then have "find (textHit c) (texts s) = Some t"
      by (simp add: find_first)
    then show "selectedElement (handleMouseDown (Some c) now s)
             = Some \<lparr>sel_type = text_element, sel_id = text_id t\<rparr>
           \<and> isDragging (handleMouseDown (Some c) now s)
           \<and> dragStartPoint (handleMouseDown (Some c) now s)
             = \<lparr>pt_x = fl (pt_x c - text_x t), pt_y = fl (pt_y c - text_y t)\<rparr>"
      by (simp add: d)
  qed
  show "(\<forall>u\<in>set (texts s). \<not> textHit c u) \<and> shapes s = ss1 @ sh # ss2 \<and> shapeHit c sh
           \<and> (\<forall>u\<in>set ss1. \<not> shapeHit c u) \<longrightarrow>
           selectedElement (handleMouseDown (Some c) now s)
             = Some \<lparr>sel_type = shape_element, sel_id = shape_id sh\<rparr>
           \<and> isDragging (handleMouseDown (Some c) now s)
           \<and> dragStartPoint (handleMouseDown (Some c) now s)
             = \<lparr>pt_x = fl (pt_x c - shape_x1 sh), pt_y = fl (pt_y c - shape_y1 sh)\<rparr>"
  proof
    assume a: "(\<forall>u\<in>set (texts s). \<not> textHit c u) \<and> shapes s = ss1 @ sh # ss2 \<and> shapeHit c sh
           \<and> (\<forall>u\<in>set ss1. \<not> shapeHit c u)"
    then have "find (textHit c) (texts s) = None" "find (shapeHit c) (shapes s) = Some sh"
      by (simp_all add: find_none find_first)
    then show "selectedElement (handleMouseDown (Some c) now s)
             = Some \<lparr>sel_type = shape_element, sel_id = shape_id sh\<rparr>
           \<and> isDragging (handleMouseDown (Some c) now s)
           \<and> dragStartPoint (handleMouseDown (Some c) now s)
             = \<lparr>pt_x = fl (pt_x c - shape_x1 sh), pt_y = fl (pt_y c - shape_y1 sh)\<rparr>"
      by (simp add: d)
  qed
  show "sh \<in> set (shapes s)
           \<and> min (shape_x1 sh) (shape_x2 sh) < pt_x c \<and> pt_x c < max (shape_x1 sh) (shape_x2 sh)
           \<and> min (shape_y1 sh) (shape_y2 sh) < pt_y c \<and> pt_y c < max (shape_y1 sh) (shape_y2 sh) \<longrightarrow>
           selectedElement (handleMouseDown (Some c) now s) \<noteq> None
           \<and> isDragging (handleMouseDown (Some c) now s)"
  proof
    assume a: "sh \<in> set (shapes s)
           \<and> min (shape_x1 sh) (shape_x2 sh) < pt_x c \<and> pt_x c < max (shape_x1 sh) (shape_x2 sh)
           \<and> min (shape_y1 sh) (shape_y2 sh) < pt_y c \<and> pt_y c < max (shape_y1 sh) (shape_y2 sh)"
    then have "shapeHit c sh" by (simp add: shapeHit_def)
    with a obtain y where "find (shapeHit c) (shapes s) = Some y"
      using find_some_ex [of sh "shapes s" "shapeHit c"] by blast
    then show "selectedElement (handleMouseDown (Some c) now s) \<noteq> None
           \<and> isDragging (handleMouseDown (Some c) now s)"
      by (simp add: d split: option.splits)
  qed
  show "(\<forall>u\<in>set (texts s).
             pt_x c < text_x u \<or> fl (text_x u + fl (fl (text_size u * real (length (text_text u))) * literal_0_6)) < pt_x c
             \<or> pt_y c < text_y u \<or> fl (text_y u + text_size u) < pt_y c)
           \<and> (\<forall>u\<in>set (shapes s).
             pt_x c < min (shape_x1 u) (shape_x2 u) \<or> max (shape_x1 u) (shape_x2 u) < pt_x c
             \<or> pt_y c < min (shape_y1 u) (shape_y2 u) \<or> max (shape_y1 u) (shape_y2 u) < pt_y c) \<longrightarrow>
           selectedElement (handleMouseDown (Some c) now s) = None
           \<and> isDragging (handleMouseDown (Some c) now s) = isDragging s"
  proof
    assume a: "(\<forall>u\<in>set (texts s).
             pt_x c < text_x u \<or> fl (text_x u + fl (fl (text_size u * real (length (text_text u))) * literal_0_6)) < pt_x c
             \<or> pt_y c < text_y u \<or> fl (text_y u + text_size u) < pt_y c)
           \<and> (\<forall>u\<in>set (shapes s).
             pt_x c < min (shape_x1 u) (shape_x2 u) \<or> max (shape_x1 u) (shape_x2 u) < pt_x c
             \<or> pt_y c < min (shape_y1 u) (shape_y2 u) \<or> max (shape_y1 u) (shape_y2 u) < pt_y c)"
    have "\<forall>u\<in>set (texts s). \<not> textHit c u"
      using a by (fastforce simp: textHit_def)
    moreover have "\<forall>u\<in>set (shapes s). \<not> shapeHit c u"
      using a by (fastforce simp: shapeHit_def)
    ultimately have "find (textHit c) (texts s) = None" "find (shapeHit c) (shapes s) = None"
      by (simp_all add: find_none)
    then show "selectedElement (handleMouseDown (Some c) now s) = None
           \<and> isDragging (handleMouseDown (Some c) now s) = isDragging s"
      by (simp add: d)
  qed
qed

text \<open>
  C7. Pointer-down with the select tool. The hit box of a text starts at its anchor; its
  right edge is the double \<open>x + size * length * 0.6\<close> and its lower edge the double
  \<open>y + size\<close>, each operation rounded and \<open>0.6\<close> the double of that literal. The hit box
  of a shape is the bounding box of its two control points. The first text whose box holds
  the point is selected; if no text is hit, the first shape whose box holds the point is
  selected; either way the drag starts and the rounded offset of the point from the
  element's anchor is recorded. A point strictly inside the box of some shape selects an
  element, and a point strictly outside these boxes of all texts and shapes selects
  nothing and starts no drag.
\<close>

theorem select_hit_testing:
  assumes "activeTool s = Some Select"
  shows "(textHit c t =
           (text_x t \<le> pt_x c \<and> pt_x c \<le> fl (text_x t + fl (fl (text_size t * real (length (text_text t))) * literal_0_6))
            \<and> text_y t \<le> pt_y c \<and> pt_y c \<le> fl (text_y t + text_size t)))
     \<and> (shapeHit c sh =
           (min (shape_x1 sh) (shape_x2 sh) \<le> pt_x c \<and> pt_x c \<le> max (shape_x1 sh) (shape_x2 sh)
            \<and> min (shape_y1 sh) (shape_y2 sh) \<le> pt_y c \<and> pt_y c \<le> max (shape_y1 sh) (shape_y2 sh)))
     \<and> (texts s = ts1 @ t # ts2 \<and> textHit c t \<and> (\<forall>u\<in>set ts1. \<not> textHit c u) \<longrightarrow>
           selectedElement (handleMouseDown (Some c) now s)
             = Some \<lparr>sel_type = text_element, sel_id = text_id t\<rparr>
           \<and> isDragging (handleMouseDown (Some c) now s)
           \<and> dragStartPoint (handleMouseDown (Some c) now s)
             = \<lparr>pt_x = fl (pt_x c - text_x t), pt_y = fl (pt_y c - text_y t)\<rparr>)
     \<and> ((\<forall>u\<in>set (texts s). \<not> textHit c u) \<and> shapes s = ss1 @ sh # ss2 \<and> shapeHit c sh
           \<and> (\<forall>u\<in>set ss1. \<not> shapeHit c u) \<longrightarrow>
           selectedElement (handleMouseDown (Some c) now s)
             = Some \<lparr>sel_type = shape_element, sel_id = shape_id sh\<rparr>
           \<and> isDragging (handleMouseDown (Some c) now s)
           \<and> dragStartPoint (handleMouseDown (Some c) now s)
             = \<lparr>pt_x = fl (pt_x c - shape_x1 sh), pt_y = fl (pt_y c - shape_y1 sh)\<rparr>)
     \<and> (sh \<in> set (shapes s)
           \<and> min (shape_x1 sh) (shape_x2 sh) < pt_x c \<and> pt_x c < max (shape_x1 sh) (shape_x2 sh)
           \<and> min (shape_y1 sh) (shape_y2 sh) < pt_y c \<and> pt_y c < max (shape_y1 sh) (shape_y2 sh) \<longrightarrow>
           selectedElement (handleMouseDown (Some c) now s) \<noteq> None
           \<and> isDragging (handleMouseDown (Some c) now s))
     \<and> ((\<forall>u\<in>set (texts s).
             pt_x c < text_x u \<or> fl (text_x u + fl (fl (text_size u * real (length (text_text u))) * literal_0_6)) < pt_x c
             \<or> pt_y c < text_y u \<or> fl (text_y u + text_size u) < pt_y c)
           \<and> (\<forall>u\<in>set (shapes s).
             pt_x c < min (shape_x1 u) (shape_x2 u) \<or> max (shape_x1 u) (shape_x2 u) < pt_x c
             \<or> pt_y c < min (shape_y1 u) (shape_y2 u) \<or> max (shape_y1 u) (shape_y2 u) < pt_y c) \<longrightarrow>
           selectedElement (handleMouseDown (Some c) now s) = None
           \<and> isDragging (handleMouseDown (Some c) now s) = isDragging s)"
  by (intro conjI select_hit_parts [OF assms])

theorem select_hit_testing_witness:
  "activeTool withElements = Some Select
   \<and> texts withElements = [] @ caption # [] \<and> textHit clickPoint caption
   \<and> selectedElement (handleMouseDown (Some clickPoint) ''3'' withElements)
       = Some \<lparr>sel_type = text_element, sel_id = ''1''\<rparr>
   \<and> dragStartPoint (handleMouseDown (Some clickPoint) ''3'' withElements)
       = \<lparr>pt_x = 2, pt_y = 2\<rparr>
   \<and> \<not> textHit insideBox caption
   \<and> shapes withElements = [] @ box # [] \<and> shapeHit insideBox box
   \<and> selectedElement (handleMouseDown (Some insideBox) ''3'' withElements)
       = Some \<lparr>sel_type = shape_element, sel_id = ''2''\<rparr>
   \<and> dragStartPoint (handleMouseDown (Some insideBox) ''3'' withElements)
       = \<lparr>pt_x = - 10, pt_y = 10\<rparr>
   \<and> \<not> textHit farPoint caption \<and> \<not> shapeHit farPoint box
   \<and> selectedElement (handleMouseDown (Some farPoint) ''3'' withElements) = None"
proof -
  have h: "activeTool withElements = Some Select" by (simp add: withElements_fields)
  have t: "texts withElements = [] @ caption # []" "shapes withElements = [] @ box # []"
    by (simp_all add: withElements_fields)
  have hit: "textHit clickPoint caption" "\<not> textHit insideBox caption"
    "shapeHit insideBox box" "\<not> textHit farPoint caption" "\<not> shapeHit farPoint box"
    by (simp_all add: textHit_def shapeHit_def clickPoint_def insideBox_def farPoint_def
        caption_def box_def fl_Ints fl_caption_width)
  note a = select_hit_testing [OF h, where c = clickPoint and t = caption and ?ts1.0 = "[]"
      and ?ts2.0 = "[]" and now = "''3''"]
  note b = select_hit_testing [OF h, where c = insideBox and sh = box and ?ss1.0 = "[]"
      and ?ss2.0 = "[]" and now = "''3''"]
  note c = select_hit_testing [OF h, where c = farPoint and now = "''3''"]
  have 1: "selectedElement (handleMouseDown (Some clickPoint) ''3'' withElements)
       = Some \<lparr>sel_type = text_element, sel_id = ''1''\<rparr>
     \<and> dragStartPoint (handleMouseDown (Some clickPoint) ''3'' withElements)
       = \<lparr>pt_x = 2, pt_y = 2\<rparr>"
    using a t hit by (simp add: caption_def clickPoint_def fl_Ints)
  have 2: "selectedElement (handleMouseDown (Some insideBox) ''3'' withElements)
       = Some \<lparr>sel_type = shape_element, sel_id = ''2''\<rparr>
     \<and> dragStartPoint (handleMouseDown (Some insideBox) ''3'' withElements)
       = \<lparr>pt_x = - 10, pt_y = 10\<rparr>"
    using b t hit by (simp add: withElements_fields) (simp add: box_def insideBox_def fl_Ints)
  have 3: "selectedElement (handleMouseDown (Some farPoint) ''3'' withElements) = None"
    using c by (simp add: withElements_fields farPoint_def caption_def box_def fl_Ints fl_caption_width)
  show ?thesis using h t hit 1 2 3 by simp
qed

text \<open>
  The box of the letter is 14 * 0.6 * 1 wide by the claim, that is 8.4, and the pointer at
  the double nearest to 8.4 is to the right of it. The handler computes the edge 14 * 0.6
  in doubles, which is that same double, and selects the letter.
\<close>

lemma withLetter_fields:
  "activeTool withLetter = Some Select" "texts withLetter = [letter]" "shapes withLetter = []"
  by (simp_all add: withLetter_def loaded_def resetEdits_def initialStudio_def
      INITIAL_EDIT_STATE_def)

lemma fl_letter_width:
  "fl (14 * literal_0_6) = 4728779608739021 / 562949953421312"
  "fl (4728779608739021 / 562949953421312) = 4728779608739021 / 562949953421312"
   apply (subst fl_eval [where e = 3]; simp add: literal_0_6_def rne_def Let_def)
  apply (subst fl_eval [where e = 3]; simp add: rne_def Let_def)
  done

lemma textHit_edge: "textHit edgePoint letter"
  by (simp add: textHit_def edgePoint_def letter_def fl_Ints fl_letter_width)

theorem text_edge_counterexample:
  "activeTool withLetter = Some Select \<and> texts withLetter = [letter] \<and> shapes withLetter = []
   \<and> text_x letter + text_size letter * 0.6 * real (length (text_text letter)) < pt_x edgePoint
   \<and> selectedElement (handleMouseDown (Some edgePoint) ''9'' withLetter)
       = Some \<lparr>sel_type = text_element, sel_id = ''8''\<rparr>
   \<and> isDragging (handleMouseDown (Some edgePoint) ''9'' withLetter)"
proof -
  have "text_x letter + text_size letter * 0.6 * real (length (text_text letter)) < pt_x edgePoint"
    by (simp add: letter_def edgePoint_def)
  moreover have "selectedElement (handleMouseDown (Some edgePoint) ''9'' withLetter)
       = Some \<lparr>sel_type = text_element, sel_id = ''8''\<rparr>
     \<and> isDragging (handleMouseDown (Some edgePoint) ''9'' withLetter)"
    by (simp add: handleMouseDown_select withLetter_fields textHit_edge) (simp add: letter_def)
  ultimately show ?thesis by (simp add: withLetter_fields)
qed

section \<open>Applying a crop\<close>

lemma canvas_floor:
  "1 \<le> x \<Longrightarrow> x < 2147483648 \<Longrightarrow> canvasWidth x = \<lfloor>x\<rfloor>"
  "1 \<le> x \<Longrightarrow> x < 2147483648 \<Longrightarrow> canvasHeight x = \<lfloor>x\<rfloor>"
proof -
  assume a: "1 \<le> x" "x < 2147483648"
  have "1 \<le> \<lfloor>x\<rfloor>" "\<lfloor>x\<rfloor> < 2147483648"
    using a by (simp_all add: le_floor_iff floor_less_iff)
  then have "unsignedLong x = \<lfloor>x\<rfloor>"
    using a by (simp add: unsignedLong_def)
  then show "canvasWidth x = \<lfloor>x\<rfloor>" "canvasHeight x = \<lfloor>x\<rfloor>"
    using \<open>\<lfloor>x\<rfloor> < 2147483648\<close> by (simp_all add: canvasWidth_def canvasHeight_def)
qed

lemma handleApplyCrop_applied:
  assumes "cropRect s = Some r" "originalImage s \<noteq> None" "0 < rect_width r" "0 < rect_height r"
  shows "handleApplyCrop True png s =
     resetEdits INITIAL_EDIT_STATE
       (s\<lparr>originalImage := Some (canvasImage (canvasWidth (rect_width r))
                                   (canvasHeight (rect_height r)) png),
          fileName := ''cropped-image.png'', exportFileName := ''cropped-image''\<rparr>)"
  using assms by (auto simp: handleApplyCrop_def)

text \<open>
  C5. With a crop rectangle whose width and height are at least 1 (and below 2 ^ 31), an
  image loaded and a 2D context for the crop canvas, applying the crop makes the new
  source image as wide and high as the integer parts of the rectangle's width and height:
  the crop canvas keeps its size as integers. With a rectangle of positive width and
  height the edit state is reset to the initial state (before and after the restore
  effect) and the history to the single initial snapshot with index 0. With no crop
  rectangle, or one whose width or height is not positive (zero area included), applying
  the crop changes nothing. The handler makes no test against the canvas bounds.
\<close>

theorem handleApplyCrop_result:
  "(cropRect s = Some r \<and> originalImage s \<noteq> None
      \<and> 1 \<le> rect_width r \<and> rect_width r < 2147483648
      \<and> 1 \<le> rect_height r \<and> rect_height r < 2147483648 \<longrightarrow>
      originalImage (handleApplyCrop True png s)
        = Some \<lparr>naturalWidth = \<lfloor>rect_width r\<rfloor>, naturalHeight = \<lfloor>rect_height r\<rfloor>,
                dataUrl = png\<rparr>)
   \<and> (cropRect s = Some r \<and> originalImage s \<noteq> None \<and> 0 < rect_width r \<and> 0 < rect_height r \<longrightarrow>
      displayed (handleApplyCrop True png s) = INITIAL_EDIT_STATE
      \<and> displayed (afterRender s (handleApplyCrop True png s)) = INITIAL_EDIT_STATE
      \<and> history (handleApplyCrop True png s) = [INITIAL_EDIT_STATE]
      \<and> historyIndex (handleApplyCrop True png s) = 0)
   \<and> ((case cropRect s of None \<Rightarrow> True
        | Some r' \<Rightarrow> rect_width r' \<le> 0 \<or> rect_height r' \<le> 0) \<longrightarrow>
      handleApplyCrop ctx png s = s)"
proof (intro conjI impI)
  assume a: "cropRect s = Some r \<and> originalImage s \<noteq> None
      \<and> 1 \<le> rect_width r \<and> rect_width r < 2147483648
      \<and> 1 \<le> rect_height r \<and> rect_height r < 2147483648"
  then have e: "handleApplyCrop True png s =
     resetEdits INITIAL_EDIT_STATE
       (s\<lparr>originalImage := Some (canvasImage (canvasWidth (rect_width r))
                                   (canvasHeight (rect_height r)) png),
          fileName := ''cropped-image.png'', exportFileName := ''cropped-image''\<rparr>)"
    by (intro handleApplyCrop_applied) simp_all
  have c: "canvasWidth (rect_width r) = \<lfloor>rect_width r\<rfloor>"
    "canvasHeight (rect_height r) = \<lfloor>rect_height r\<rfloor>"
    using a by (simp_all add: canvas_floor)
  have "1 \<le> \<lfloor>rect_width r\<rfloor>" "1 \<le> \<lfloor>rect_height r\<rfloor>"
    using a by (simp_all add: le_floor_iff)
  then have "\<lfloor>rect_width r\<rfloor> \<noteq> 0" "\<lfloor>rect_height r\<rfloor> \<noteq> 0"
    by linarith+
  then show "originalImage (handleApplyCrop True png s)
        = Some \<lparr>naturalWidth = \<lfloor>rect_width r\<rfloor>, naturalHeight = \<lfloor>rect_height r\<rfloor>,
                dataUrl = png\<rparr>"
    by (simp add: e c resetEdits_def canvasImage_def)
next
  assume a: "cropRect s = Some r \<and> originalImage s \<noteq> None \<and> 0 < rect_width r \<and> 0 < rect_height r"
  let ?u = "s\<lparr>originalImage := Some (canvasImage (canvasWidth (rect_width r))
                                   (canvasHeight (rect_height r)) png),
          fileName := ''cropped-image.png'', exportFileName := ''cropped-image''\<rparr>"
  have e: "handleApplyCrop True png s = resetEdits INITIAL_EDIT_STATE ?u"
    using a by (intro handleApplyCrop_applied) simp_all
  have d: "displayed (handleApplyCrop True png s) = INITIAL_EDIT_STATE"
    by (simp only: e displayed_resetEdits)
  have h: "history (handleApplyCrop True png s) = [INITIAL_EDIT_STATE]"
    "historyIndex (handleApplyCrop True png s) = 0"
    by (simp_all add: e resetEdits_def)
  have "displayed (restoreHistory (resetEdits INITIAL_EDIT_STATE ?u)) = INITIAL_EDIT_STATE"
    by (subst displayed_restoreHistory) (simp_all add: resetEdits_def)
  then have r: "displayed (afterRender s (handleApplyCrop True png s)) = INITIAL_EDIT_STATE"
    by (simp add: e afterRender_def displayed_resetEdits)
  show "displayed (handleApplyCrop True png s) = INITIAL_EDIT_STATE"
    "displayed (afterRender s (handleApplyCrop True png s)) = INITIAL_EDIT_STATE"
    "history (handleApplyCrop True png s) = [INITIAL_EDIT_STATE]"
    "historyIndex (handleApplyCrop True png s) = 0"
    by (rule d r h)+
next
  assume "case cropRect s of None \<Rightarrow> True | Some r' \<Rightarrow> rect_width r' \<le> 0 \<or> rect_height r' \<le> 0"
  then show "handleApplyCrop ctx png s = s"
    by (auto simp: handleApplyCrop_def split: option.splits)
qed

text \<open>
  On the photo with a caption and a box, a rectangle of 50.5 by 40.5 gives an image of 50
  by 40 and a reset session, one of 50 by 50 an image of 50 by 50, and one of width 0 is
  ignored.
\<close>

lemma cropping_fields:
  "cropRect (cropping r) = Some r" "originalImage (cropping r) = Some photo"
  "transforms (cropping r) = INITIAL_TRANSFORMS"
  "history (cropping r) = [INITIAL_EDIT_STATE\<lparr>e_texts := [caption], e_shapes := [box]\<rparr>]"
  "texts (cropping r) = [caption]"
  by (simp_all add: cropping_def withElements_fields)

theorem handleApplyCrop_result_witness:
  "cropRect (cropping fractionalCrop) = Some fractionalCrop
   \<and> originalImage (cropping fractionalCrop) \<noteq> None
   \<and> rect_width fractionalCrop = 101 / 2 \<and> rect_height fractionalCrop = 81 / 2
   \<and> texts (cropping fractionalCrop) = [caption]
   \<and> originalImage (handleApplyCrop True ''data:image/png;base64,BBBB'' (cropping fractionalCrop))
       = Some \<lparr>naturalWidth = 50, naturalHeight = 40, dataUrl = ''data:image/png;base64,BBBB''\<rparr>
   \<and> displayed (handleApplyCrop True ''data:image/png;base64,BBBB'' (cropping fractionalCrop))
       = INITIAL_EDIT_STATE
   \<and> history (handleApplyCrop True ''data:image/png;base64,BBBB'' (cropping fractionalCrop))
       = [INITIAL_EDIT_STATE]
   \<and> historyIndex (handleApplyCrop True ''data:image/png;base64,BBBB'' (cropping fractionalCrop))
       = 0
   \<and> originalImage (handleApplyCrop True ''data:image/png;base64,BBBB'' (cropping insideCrop))
       = Some \<lparr>naturalWidth = 50, naturalHeight = 50, dataUrl = ''data:image/png;base64,BBBB''\<rparr>
   \<and> rect_width emptyCrop * rect_height emptyCrop = 0
   \<and> handleApplyCrop True ''data:image/png;base64,BBBB'' (cropping emptyCrop) = cropping emptyCrop"
proof -
  have h: "cropRect (cropping fractionalCrop) = Some fractionalCrop"
    "originalImage (cropping fractionalCrop) \<noteq> None"
    "rect_width fractionalCrop = 101 / 2" "rect_height fractionalCrop = 81 / 2"
    "texts (cropping fractionalCrop) = [caption]"
    by (simp_all add: cropping_fields fractionalCrop_def)
  have i: "cropRect (cropping insideCrop) = Some insideCrop"
    "originalImage (cropping insideCrop) \<noteq> None"
    "rect_width insideCrop = 50" "rect_height insideCrop = 50"
    by (simp_all add: cropping_fields insideCrop_def)
  have z: "rect_width emptyCrop * rect_height emptyCrop = 0"
    "case cropRect (cropping emptyCrop) of None \<Rightarrow> True
     | Some r' \<Rightarrow> rect_width r' \<le> 0 \<or> rect_height r' \<le> 0"
    by (simp_all add: cropping_fields emptyCrop_def)
  note a = handleApplyCrop_result [where s = "cropping fractionalCrop" and r = fractionalCrop
      and png = "''data:image/png;base64,BBBB''"]
  note b = handleApplyCrop_result [where s = "cropping emptyCrop" and ctx = True
      and png = "''data:image/png;base64,BBBB''"]
  note c = handleApplyCrop_result [where s = "cropping insideCrop" and r = insideCrop
      and png = "''data:image/png;base64,BBBB''"]
  have 1: "originalImage (handleApplyCrop True ''data:image/png;base64,BBBB'' (cropping fractionalCrop))
       = Some \<lparr>naturalWidth = 50, naturalHeight = 40, dataUrl = ''data:image/png;base64,BBBB''\<rparr>"
    using conjunct1 [OF a] h by simp
  have 2: "displayed (handleApplyCrop True ''data:image/png;base64,BBBB'' (cropping fractionalCrop))
       = INITIAL_EDIT_STATE
     \<and> history (handleApplyCrop True ''data:image/png;base64,BBBB'' (cropping fractionalCrop))
       = [INITIAL_EDIT_STATE]
     \<and> historyIndex (handleApplyCrop True ''data:image/png;base64,BBBB'' (cropping fractionalCrop))
       = 0"
    using conjunct1 [OF conjunct2 [OF a]] h by simp
  have 3: "originalImage (handleApplyCrop True ''data:image/png;base64,BBBB'' (cropping insideCrop))
       = Some \<lparr>naturalWidth = 50, naturalHeight = 50, dataUrl = ''data:image/png;base64,BBBB''\<rparr>"
    using conjunct1 [OF c] i by simp
  have 4: "handleApplyCrop True ''data:image/png;base64,BBBB'' (cropping emptyCrop) = cropping emptyCrop"
    using conjunct2 [OF conjunct2 [OF b]] z(2) by blast
  show ?thesis
    using h 1 2 3 z(1) 4 by blast
qed

text \<open>
  A rectangle drawn with the pointer on the landscape photo, from (150, 20) to
  (190.5, 60.5), lies inside the canvas of 200 by 100. After a quarter turn the canvas is
  100 by 200 and the rectangle lies to the right of it. Applying the crop is not ignored:
  the image is replaced and the history reset. The new image is 40 by 40, not 40.5 by
  40.5.
\<close>

lemma fl_drag_size: "fl (81 / 2) = 81 / 2"
  by (subst fl_eval [where e = 5]) (simp_all add: rne_def Let_def)

lemma displayed_frame:
  "displayed (s\<lparr>activeTool := a\<rparr>) = displayed s"
  "displayed (s\<lparr>startPoint := p\<rparr>) = displayed s"
  "displayed (s\<lparr>isDrawing := b\<rparr>) = displayed s"
  "displayed (s\<lparr>isDragging := b\<rparr>) = displayed s"
  "displayed (s\<lparr>selectedElement := e\<rparr>) = displayed s"
  "displayed (s\<lparr>cropRect := r\<rparr>) = displayed s"
  by (simp_all add: displayed_def)

lemma landscape_size:
  "real_of_int (naturalWidth landscape) = 200" "real_of_int (naturalHeight landscape) = 100"
  by (simp_all add: landscape_def)

lemma wide_more_fields:
  "isDrawing wide = False" "isDragging wide = False" "activeTool wide = None"
  "startPoint wide = None" "selectedElement wide = None"
  by (simp_all add: wide_def resetEdits_def initialStudio_def)

lemma cropPressed_fields:
  "activeTool cropPressed = Some Crop" "startPoint cropPressed = Some dragBegin"
  "isDrawing cropPressed" "isDragging cropPressed = False" "selectedElement cropPressed = None"
  "cropRect cropPressed = None" "history cropPressed = [INITIAL_EDIT_STATE]"
  "historyIndex cropPressed = 0" "originalImage cropPressed = Some landscape"
  "transforms cropPressed = INITIAL_TRANSFORMS" "platform cropPressed = browserMath"
  "displayed cropPressed = INITIAL_EDIT_STATE"
  by (simp_all add: cropPressed_def handleMouseDown_def setActiveTool_def Let_def
      wide_fields wide_more_fields displayed_frame)

lemma crop_drawn:
  "handleMouseMove (Some dragEnd) cropPressed = Inr (cropPressed\<lparr>cropRect := Some drawnRect\<rparr>)"
  by (simp add: handleMouseMove_def cropPressed_fields dragBegin_def dragEnd_def drawnRect_def
      fl_minus fl_drag_size)

lemma cropReleased_fields:
  "activeTool cropReleased = Some Crop" "cropRect cropReleased = Some drawnRect"
  "history cropReleased = [INITIAL_EDIT_STATE]" "historyIndex cropReleased = 0"
  "originalImage cropReleased = Some landscape" "transforms cropReleased = INITIAL_TRANSFORMS"
  "platform cropReleased = browserMath" "displayed cropReleased = INITIAL_EDIT_STATE"
  "isDrawing cropReleased = False"
  by (simp_all add: cropReleased_def handleMouseUpOrLeave_def Let_def cropPressed_fields
      displayed_frame)

lemma cropTurned_fields:
  "activeTool cropTurned = Some Crop" "cropRect cropTurned = Some drawnRect"
  "history cropTurned = [INITIAL_EDIT_STATE, INITIAL_EDIT_STATE\<lparr>e_transforms := quarterTurn\<rparr>]"
  "historyIndex cropTurned = 1"
  "originalImage cropTurned = Some landscape" "transforms cropTurned = quarterTurn"
  "platform cropTurned = browserMath"
proof -
  let ?u = "cropReleased\<lparr>activeTool := Some Transform\<rparr>"
  have t: "cropTurned = (rotateRightEvent ?u)\<lparr>activeTool := Some Crop\<rparr>"
    by (simp add: cropTurned_def setActiveTool_def)
  have u: "transforms ?u = INITIAL_TRANSFORMS" "history ?u = [INITIAL_EDIT_STATE]"
    "historyIndex ?u = 0" "displayed ?u = INITIAL_EDIT_STATE" "cropRect ?u = Some drawnRect"
    "originalImage ?u = Some landscape" "platform ?u = browserMath"
    by (simp_all add: cropReleased_fields displayed_frame)
  have c: "rotateRightClick ?u
      = (recordHistory (onlyTransforms quarterTurn) ?u)\<lparr>transforms := quarterTurn\<rparr>"
    by (simp add: rotateRightClick_def Let_def u quarterTurn_computed)
  have h: "history (rotateRightClick ?u)
      = [INITIAL_EDIT_STATE, INITIAL_EDIT_STATE\<lparr>e_transforms := quarterTurn\<rparr>]"
    "historyIndex (rotateRightClick ?u) = 1"
    by (simp_all add: c recordHistory_history recordHistory_index u spread_onlyTransforms
        slice0_def)
  have r: "rotateRightEvent ?u = restoreHistory (rotateRightClick ?u)"
    by (simp add: rotateRightEvent_def afterRender_def h u)
  have f: "cropRect (rotateRightClick ?u) = Some drawnRect"
    "originalImage (rotateRightClick ?u) = Some landscape"
    "platform (rotateRightClick ?u) = browserMath"
    by (simp_all add: c recordHistory_def recordHistoryIn_def Let_def cropReleased_fields)
  show "activeTool cropTurned = Some Crop" by (simp add: t)
  show "cropRect cropTurned = Some drawnRect" "originalImage cropTurned = Some landscape"
    "platform cropTurned = browserMath"
    "history cropTurned = [INITIAL_EDIT_STATE, INITIAL_EDIT_STATE\<lparr>e_transforms := quarterTurn\<rparr>]"
    "historyIndex cropTurned = 1" "transforms cropTurned = quarterTurn"
    by (simp_all add: t r restoreHistory_def Let_def h f)
qed

lemma canvasSize_quarter: "canvasSize browserMath landscape quarterTurn = (100, 200)"
  unfolding canvasSize_def assignedSize_def radians_def Let_def fst_conv snd_conv
    landscape_size quarter_radians browserMath_values quarter_width quarter_height
  by (rule refl)

theorem crop_after_turn_counterexample:
  "handleMouseMove (Some dragEnd) cropPressed = Inr (cropPressed\<lparr>cropRect := Some drawnRect\<rparr>)
   \<and> activeTool cropTurned = Some Crop \<and> cropRect cropTurned = Some drawnRect
   \<and> originalImage cropTurned = Some landscape
   \<and> hd (render cropTurned) = SetCanvasSize 100 200
   \<and> real_of_int (fst (canvasSize (platform cropTurned) landscape (transforms cropTurned)))
       \<le> rect_x drawnRect
   \<and> history cropTurned
       = [INITIAL_EDIT_STATE, INITIAL_EDIT_STATE\<lparr>e_transforms := quarterTurn\<rparr>]
   \<and> handleApplyCrop True ''data:image/png;base64,BBBB'' cropTurned \<noteq> cropTurned
   \<and> history (handleApplyCrop True ''data:image/png;base64,BBBB'' cropTurned)
       = [INITIAL_EDIT_STATE]
   \<and> originalImage (handleApplyCrop True ''data:image/png;base64,BBBB'' cropTurned)
       = Some \<lparr>naturalWidth = 40, naturalHeight = 40, dataUrl = ''data:image/png;base64,BBBB''\<rparr>
   \<and> real_of_int 40 \<noteq> rect_width drawnRect"
proof -
  have c: "canvasSize (platform cropTurned) landscape (transforms cropTurned) = (100, 200)"
    by (simp add: cropTurned_fields canvasSize_quarter)
  have r: "hd (render cropTurned) = SetCanvasSize 100 200"
    by (simp add: hd_render [OF cropTurned_fields(5)] c)
  have e: "handleApplyCrop True ''data:image/png;base64,BBBB'' cropTurned =
     resetEdits INITIAL_EDIT_STATE
       (cropTurned\<lparr>originalImage := Some (canvasImage (canvasWidth (rect_width drawnRect))
                                   (canvasHeight (rect_height drawnRect))
                                   ''data:image/png;base64,BBBB''),
          fileName := ''cropped-image.png'', exportFileName := ''cropped-image''\<rparr>)"
    by (rule handleApplyCrop_applied) (simp_all add: cropTurned_fields drawnRect_def)
  have w: "canvasWidth (rect_width drawnRect) = 40" "canvasHeight (rect_height drawnRect) = 40"
    by (simp_all add: drawnRect_def canvasWidth_def canvasHeight_def unsignedLong_def)
  have o: "originalImage (handleApplyCrop True ''data:image/png;base64,BBBB'' cropTurned)
       = Some \<lparr>naturalWidth = 40, naturalHeight = 40, dataUrl = ''data:image/png;base64,BBBB''\<rparr>"
    "history (handleApplyCrop True ''data:image/png;base64,BBBB'' cropTurned)
       = [INITIAL_EDIT_STATE]"
    unfolding e by (simp_all add: resetEdits_def w canvasImage_def)
  have n: "handleApplyCrop True ''data:image/png;base64,BBBB'' cropTurned \<noteq> cropTurned"
  proof
    assume "handleApplyCrop True ''data:image/png;base64,BBBB'' cropTurned = cropTurned"
    then have "history (handleApplyCrop True ''data:image/png;base64,BBBB'' cropTurned)
       = history cropTurned" by simp
    then show False by (simp add: o cropTurned_fields)
  qed
  have x: "real_of_int (fst (canvasSize (platform cropTurned) landscape (transforms cropTurned)))
       \<le> rect_x drawnRect" "real_of_int 40 \<noteq> rect_width drawnRect"
    by (simp_all add: c drawnRect_def)
  show ?thesis
    using crop_drawn cropTurned_fields(1,2,3,5) r x n o by blast
qed

end
